theory Spec2Isabelle
  imports Complex_Main "HOL-Library.Word"
begin

section \<open>Gauss-Legendre quadrature: core/ChQuadrature.h\<close>

subsection \<open>Data\<close>

text \<open>
  Class \<open>ChQuadratureTables\<close> has two public members, \<open>Weight\<close> and \<open>Lroots\<close>, each a
  \<open>std::vector<std::vector<double>>\<close>. The numbers of a table, the bounds of an interval
  and the points at which an integrand is evaluated are embedded as real numbers: the
  development is about the arithmetic the routines perform, not about rounding. The
  values that a routine accumulates have the template type \<open>T\<close>, which is a type
  parameter below; section \<open>Results in double precision\<close> gives the instance
  \<open>T = double\<close> with its infinities and NaN.
\<close>

record ChQuadratureTables =
  Weight :: "real list list"
  Lroots :: "real list list"

text \<open>
  The two ways an element access of the source can go wrong: \<open>operator[]\<close> outside the
  vector (undefined behaviour, as is signed overflow) and \<open>at()\<close> outside the vector
  (the exception \<open>std::out_of_range\<close>).
\<close>

datatype error = UndefinedBehaviour | OutOfRange

text \<open>
  What a call can change outside its result: the tables written to the log by
  \<open>PrintTables\<close>, oldest first, and the number of \<open>ChQuadratureTables\<close> objects
  created with \<open>new\<close> and not yet deleted.
\<close>

record world =
  printed :: "ChQuadratureTables list"
  allocated :: nat

text \<open>The argument \<open>const int order\<close> is a 32-bit integer: \<open>sint\<close> reads it as the signed
  value it is, \<open>unat\<close> is the cast \<open>(unsigned int)order\<close>.\<close>

type_synonym c_int = "32 word"

subsection \<open>Element access\<close>

text \<open>
  \<open>v[i]\<close> with an \<open>int\<close> index: the index is converted to \<open>size_t\<close> (64 bits, so
  \<open>-1\<close> becomes \<open>2^64 - 1\<close>) and is not checked.
\<close>

definition subscript :: "'a list \<Rightarrow> int \<Rightarrow> error + 'a" where
  "subscript v i =
     (let j = nat (i mod 2 ^ 64)
      in if j < length v then Inr (v ! j) else Inl UndefinedBehaviour)"

text \<open>\<open>v->at(i)\<close> with an unsigned index: checked, throws outside the vector.\<close>

definition vec_at :: "'a list \<Rightarrow> nat \<Rightarrow> error + 'a" where
  "vec_at v i = (if i < length v then Inr (v ! i) else Inl OutOfRange)"

text \<open>\<open>order - 1\<close> in \<open>int\<close> arithmetic; it overflows at \<open>INT_MIN\<close>.\<close>

definition order_minus_1 :: "c_int \<Rightarrow> error + int" where
  "order_minus_1 order =
     (if sint order - 1 < - (2 ^ 31) then Inl UndefinedBehaviour else Inr (sint order - 1))"

subsection \<open>The parts of the class that the header only declares\<close>

text \<open>
  Modelled from the spec: \<open>ChQuadratureTables::PrintTables\<close> is declared in the header and
  defined elsewhere. The specification calls it a diagnostic dump operation that prints
  all tables; here it appends the table to the log.

  The constructor \<open>ChQuadratureTables(order_from, order_to)\<close> and \<open>GetStaticTables()\<close>
  are declared only as well. They enter every routine below as parameters: \<open>mk\<close> is the
  constructor and \<open>st\<close> is the table that \<open>GetStaticTables()\<close> points to.
\<close>

definition PrintTables :: "ChQuadratureTables \<Rightarrow> world \<Rightarrow> world" where
  "PrintTables t w = w\<lparr>printed := printed w @ [t]\<rparr>"

subsection \<open>Choosing the table (lines 98 to 114, repeated in all three routines)\<close>

text \<open>
  The result is the pair \<open>lroots\<close>, \<open>weight\<close> and the flag \<open>static_tables\<close>, with the
  world after the allocation and the dump of the second branch.
\<close>

definition choose_tables ::
  "(c_int \<Rightarrow> c_int \<Rightarrow> ChQuadratureTables) \<Rightarrow> ChQuadratureTables \<Rightarrow> world \<Rightarrow> c_int \<Rightarrow>
     (error + real list \<times> real list \<times> bool) \<times> world" where
  "choose_tables mk st w order =
     (if unat order \<le> length (Lroots st) then
        (case order_minus_1 order of
           Inl e \<Rightarrow> (Inl e, w)
         | Inr k \<Rightarrow>
            (case subscript (Lroots st) k of
               Inl e \<Rightarrow> (Inl e, w)
             | Inr lroots \<Rightarrow>
                (case subscript (Weight st) k of
                   Inl e \<Rightarrow> (Inl e, w)
                 | Inr weight \<Rightarrow> (Inr (lroots, weight, True), w))))
      else
        (let mtables = mk order order;
             w1 = w\<lparr>allocated := Suc (allocated w)\<rparr>;
             w2 = PrintTables mtables w1
         in case subscript (Lroots mtables) 0 of
              Inl e \<Rightarrow> (Inl e, w2)
            | Inr lroots \<Rightarrow>
               (case subscript (Weight mtables) 0 of
                  Inl e \<Rightarrow> (Inl e, w2)
                | Inr weight \<Rightarrow> (Inr (lroots, weight, False), w2))))"

text \<open>
  The end of each routine: \<open>if (!static_tables) delete mtables;\<close>. An exception thrown
  in the loop leaves the routine before this line.
\<close>

definition release :: "bool \<Rightarrow> error + 'a \<Rightarrow> world \<Rightarrow> (error + 'a) \<times> world" where
  "release static_tables r w =
     (case r of
        Inl e \<Rightarrow> (Inl e, w)
      | Inr x \<Rightarrow> (Inr x, if static_tables then w else w\<lparr>allocated := allocated w - 1\<rparr>))"

subsection \<open>Integrate1D\<close>

text \<open>
  The loop over \<open>i = 0 .. lroots->size() - 1\<close>: evaluate the integrand at
  \<open>c1 * lroots->at(i) + c2\<close>, scale the value by \<open>weight->at(i)\<close>, add it to the result.
  The result type \<open>T\<close> is any type with \<open>+=\<close> and with \<open>*=\<close> by a \<open>double\<close>: the
  routine uses nothing else of it. These are \<open>+\<close> of class \<open>plus\<close> and \<open>*\<^sub>R\<close> of class
  \<open>scaleR\<close>, of which no law is assumed here. Line 119, \<open>result *= 0\<close>, is the scaling
  \<open>0 *\<^sub>R result\<close> of the incoming value, and line 127, \<open>result *= c1\<close>, the scaling of
  the accumulated sum: what they give is for the instance of \<open>T\<close> to say. In a real
  vector space \<open>0 *\<^sub>R result\<close> is 0; in type \<open>double\<close> below it is NaN when \<open>result\<close> is
  NaN or an infinity.
\<close>

fun loop1D ::
  "(real \<Rightarrow> 'a::{scaleR,plus}) \<Rightarrow> real \<Rightarrow> real \<Rightarrow> real list \<Rightarrow> real list \<Rightarrow> nat list \<Rightarrow> 'a \<Rightarrow>
     error + 'a" where
  "loop1D integrand c1 c2 lroots weight [] result = Inr result"
| "loop1D integrand c1 c2 lroots weight (i # is) result =
     (case vec_at lroots i of
        Inl e \<Rightarrow> Inl e
      | Inr x \<Rightarrow>
         (let val = integrand (c1 * x + c2)
          in case vec_at weight i of
               Inl e \<Rightarrow> Inl e
             | Inr wt \<Rightarrow> loop1D integrand c1 c2 lroots weight is (result + wt *\<^sub>R val)))"

definition sum1D ::
  "'a::{scaleR,plus} \<Rightarrow> (real \<Rightarrow> 'a) \<Rightarrow> real \<Rightarrow> real \<Rightarrow> real list \<Rightarrow> real list \<Rightarrow> error + 'a" where
  "sum1D result integrand a b lroots weight =
     (let c1 = (b - a) / 2;
          c2 = (b + a) / 2;
          result0 = 0 *\<^sub>R result
      in case loop1D integrand c1 c2 lroots weight [0..<length lroots] result0 of
           Inl e \<Rightarrow> Inl e
         | Inr s \<Rightarrow> Inr (c1 *\<^sub>R s))"

definition Integrate1D ::
  "(c_int \<Rightarrow> c_int \<Rightarrow> ChQuadratureTables) \<Rightarrow> ChQuadratureTables \<Rightarrow> world \<Rightarrow>
     'a::{scaleR,plus} \<Rightarrow> (real \<Rightarrow> 'a) \<Rightarrow> real \<Rightarrow> real \<Rightarrow> c_int \<Rightarrow> (error + 'a) \<times> world" where
  "Integrate1D mk st w result integrand a b order =
     (case choose_tables mk st w order of
        (Inl e, w') \<Rightarrow> (Inl e, w')
      | (Inr (lroots, weight, static_tables), w') \<Rightarrow>
          release static_tables (sum1D result integrand a b lroots weight) w')"

subsection \<open>Integrate2D\<close>

text \<open>
  The inner loop over \<open>iy\<close> for one \<open>ix\<close>, then the outer loop over \<open>ix\<close>; both run over
  \<open>0 .. lroots->size() - 1\<close>.
\<close>

fun loop2D_y ::
  "(real \<Rightarrow> real \<Rightarrow> 'a::{scaleR,plus}) \<Rightarrow> real \<Rightarrow> real \<Rightarrow> real \<Rightarrow> real \<Rightarrow> real list \<Rightarrow> real list \<Rightarrow>
     nat \<Rightarrow> nat list \<Rightarrow> 'a \<Rightarrow> error + 'a" where
  "loop2D_y integrand Xc1 Xc2 Yc1 Yc2 lroots weight ix [] result = Inr result"
| "loop2D_y integrand Xc1 Xc2 Yc1 Yc2 lroots weight ix (iy # iys) result =
     (case vec_at lroots ix of
        Inl e \<Rightarrow> Inl e
      | Inr x \<Rightarrow>
         (case vec_at lroots iy of
            Inl e \<Rightarrow> Inl e
          | Inr y \<Rightarrow>
             (let val = integrand (Xc1 * x + Xc2) (Yc1 * y + Yc2)
              in case vec_at weight ix of
                   Inl e \<Rightarrow> Inl e
                 | Inr wx \<Rightarrow>
                    (case vec_at weight iy of
                       Inl e \<Rightarrow> Inl e
                     | Inr wy \<Rightarrow>
                        loop2D_y integrand Xc1 Xc2 Yc1 Yc2 lroots weight ix iys
                          (result + (wx * wy) *\<^sub>R val)))))"

fun loop2D_x ::
  "(real \<Rightarrow> real \<Rightarrow> 'a::{scaleR,plus}) \<Rightarrow> real \<Rightarrow> real \<Rightarrow> real \<Rightarrow> real \<Rightarrow> real list \<Rightarrow> real list \<Rightarrow>
     nat list \<Rightarrow> 'a \<Rightarrow> error + 'a" where
  "loop2D_x integrand Xc1 Xc2 Yc1 Yc2 lroots weight [] result = Inr result"
| "loop2D_x integrand Xc1 Xc2 Yc1 Yc2 lroots weight (ix # ixs) result =
     (case loop2D_y integrand Xc1 Xc2 Yc1 Yc2 lroots weight ix [0..<length lroots] result of
        Inl e \<Rightarrow> Inl e
      | Inr r \<Rightarrow> loop2D_x integrand Xc1 Xc2 Yc1 Yc2 lroots weight ixs r)"

definition sum2D ::
  "'a::{scaleR,plus} \<Rightarrow> (real \<Rightarrow> real \<Rightarrow> 'a) \<Rightarrow> real \<Rightarrow> real \<Rightarrow> real \<Rightarrow> real \<Rightarrow> real list \<Rightarrow> real list \<Rightarrow>
     error + 'a" where
  "sum2D result integrand Xa Xb Ya Yb lroots weight =
     (let Xc1 = (Xb - Xa) / 2;
          Xc2 = (Xb + Xa) / 2;
          Yc1 = (Yb - Ya) / 2;
          Yc2 = (Yb + Ya) / 2;
          result0 = 0 *\<^sub>R result
      in case loop2D_x integrand Xc1 Xc2 Yc1 Yc2 lroots weight [0..<length lroots] result0 of
           Inl e \<Rightarrow> Inl e
         | Inr s \<Rightarrow> Inr ((Xc1 * Yc1) *\<^sub>R s))"

definition Integrate2D ::
  "(c_int \<Rightarrow> c_int \<Rightarrow> ChQuadratureTables) \<Rightarrow> ChQuadratureTables \<Rightarrow> world \<Rightarrow>
     'a::{scaleR,plus} \<Rightarrow> (real \<Rightarrow> real \<Rightarrow> 'a) \<Rightarrow> real \<Rightarrow> real \<Rightarrow> real \<Rightarrow> real \<Rightarrow> c_int \<Rightarrow>
     (error + 'a) \<times> world" where
  "Integrate2D mk st w result integrand Xa Xb Ya Yb order =
     (case choose_tables mk st w order of
        (Inl e, w') \<Rightarrow> (Inl e, w')
      | (Inr (lroots, weight, static_tables), w') \<Rightarrow>
          release static_tables (sum2D result integrand Xa Xb Ya Yb lroots weight) w')"

subsection \<open>Integrate3D\<close>

fun loop3D_z ::
  "(real \<Rightarrow> real \<Rightarrow> real \<Rightarrow> 'a::{scaleR,plus}) \<Rightarrow> real \<Rightarrow> real \<Rightarrow> real \<Rightarrow> real \<Rightarrow> real \<Rightarrow> real \<Rightarrow>
     real list \<Rightarrow> real list \<Rightarrow> nat \<Rightarrow> nat \<Rightarrow> nat list \<Rightarrow> 'a \<Rightarrow> error + 'a" where
  "loop3D_z integrand Xc1 Xc2 Yc1 Yc2 Zc1 Zc2 lroots weight ix iy [] result = Inr result"
| "loop3D_z integrand Xc1 Xc2 Yc1 Yc2 Zc1 Zc2 lroots weight ix iy (iz # izs) result =
     (case vec_at lroots ix of
        Inl e \<Rightarrow> Inl e
      | Inr x \<Rightarrow>
         (case vec_at lroots iy of
            Inl e \<Rightarrow> Inl e
          | Inr y \<Rightarrow>
             (case vec_at lroots iz of
                Inl e \<Rightarrow> Inl e
              | Inr z \<Rightarrow>
                 (let val = integrand (Xc1 * x + Xc2) (Yc1 * y + Yc2) (Zc1 * z + Zc2)
                  in case vec_at weight ix of
                       Inl e \<Rightarrow> Inl e
                     | Inr wx \<Rightarrow>
                        (case vec_at weight iy of
                           Inl e \<Rightarrow> Inl e
                         | Inr wy \<Rightarrow>
                            (case vec_at weight iz of
                               Inl e \<Rightarrow> Inl e
                             | Inr wz \<Rightarrow>
                                loop3D_z integrand Xc1 Xc2 Yc1 Yc2 Zc1 Zc2 lroots weight ix iy izs
                                  (result + (wx * wy * wz) *\<^sub>R val)))))))"

fun loop3D_y ::
  "(real \<Rightarrow> real \<Rightarrow> real \<Rightarrow> 'a::{scaleR,plus}) \<Rightarrow> real \<Rightarrow> real \<Rightarrow> real \<Rightarrow> real \<Rightarrow> real \<Rightarrow> real \<Rightarrow>
     real list \<Rightarrow> real list \<Rightarrow> nat \<Rightarrow> nat list \<Rightarrow> 'a \<Rightarrow> error + 'a" where
  "loop3D_y integrand Xc1 Xc2 Yc1 Yc2 Zc1 Zc2 lroots weight ix [] result = Inr result"
| "loop3D_y integrand Xc1 Xc2 Yc1 Yc2 Zc1 Zc2 lroots weight ix (iy # iys) result =
     (case loop3D_z integrand Xc1 Xc2 Yc1 Yc2 Zc1 Zc2 lroots weight ix iy
             [0..<length lroots] result of
        Inl e \<Rightarrow> Inl e
      | Inr r \<Rightarrow> loop3D_y integrand Xc1 Xc2 Yc1 Yc2 Zc1 Zc2 lroots weight ix iys r)"

fun loop3D_x ::
  "(real \<Rightarrow> real \<Rightarrow> real \<Rightarrow> 'a::{scaleR,plus}) \<Rightarrow> real \<Rightarrow> real \<Rightarrow> real \<Rightarrow> real \<Rightarrow> real \<Rightarrow> real \<Rightarrow>
     real list \<Rightarrow> real list \<Rightarrow> nat list \<Rightarrow> 'a \<Rightarrow> error + 'a" where
  "loop3D_x integrand Xc1 Xc2 Yc1 Yc2 Zc1 Zc2 lroots weight [] result = Inr result"
| "loop3D_x integrand Xc1 Xc2 Yc1 Yc2 Zc1 Zc2 lroots weight (ix # ixs) result =
     (case loop3D_y integrand Xc1 Xc2 Yc1 Yc2 Zc1 Zc2 lroots weight ix
             [0..<length lroots] result of
        Inl e \<Rightarrow> Inl e
      | Inr r \<Rightarrow> loop3D_x integrand Xc1 Xc2 Yc1 Yc2 Zc1 Zc2 lroots weight ixs r)"

definition sum3D ::
  "'a::{scaleR,plus} \<Rightarrow> (real \<Rightarrow> real \<Rightarrow> real \<Rightarrow> 'a) \<Rightarrow> real \<Rightarrow> real \<Rightarrow> real \<Rightarrow> real \<Rightarrow> real \<Rightarrow> real \<Rightarrow>
     real list \<Rightarrow> real list \<Rightarrow> error + 'a" where
  "sum3D result integrand Xa Xb Ya Yb Za Zb lroots weight =
     (let Xc1 = (Xb - Xa) / 2;
          Xc2 = (Xb + Xa) / 2;
          Yc1 = (Yb - Ya) / 2;
          Yc2 = (Yb + Ya) / 2;
          Zc1 = (Zb - Za) / 2;
          Zc2 = (Zb + Za) / 2;
          result0 = 0 *\<^sub>R result
      in case loop3D_x integrand Xc1 Xc2 Yc1 Yc2 Zc1 Zc2 lroots weight
                [0..<length lroots] result0 of
           Inl e \<Rightarrow> Inl e
         | Inr s \<Rightarrow> Inr ((Xc1 * Yc1 * Zc1) *\<^sub>R s))"

definition Integrate3D ::
  "(c_int \<Rightarrow> c_int \<Rightarrow> ChQuadratureTables) \<Rightarrow> ChQuadratureTables \<Rightarrow> world \<Rightarrow>
     'a::{scaleR,plus} \<Rightarrow> (real \<Rightarrow> real \<Rightarrow> real \<Rightarrow> 'a) \<Rightarrow> real \<Rightarrow> real \<Rightarrow> real \<Rightarrow> real \<Rightarrow> real \<Rightarrow> real \<Rightarrow>
     c_int \<Rightarrow> (error + 'a) \<times> world" where
  "Integrate3D mk st w result integrand Xa Xb Ya Yb Za Zb order =
     (case choose_tables mk st w order of
        (Inl e, w') \<Rightarrow> (Inl e, w')
      | (Inr (lroots, weight, static_tables), w') \<Rightarrow>
          release static_tables (sum3D result integrand Xa Xb Ya Yb Za Zb lroots weight) w')"

subsection \<open>The accumulated sum\<close>


section \<open>Results in double precision\<close>

text \<open>
  For \<open>T = double\<close> the operations \<open>+=\<close> and \<open>*=\<close> are those of IEEE 754. A \<open>double\<close> is a
  finite number, one of the two infinities or NaN; a sum or product beyond the largest
  finite \<open>double\<close> is an infinity (overflow), an infinity times zero and the sum of the
  two infinities are NaN, and NaN stays NaN. Type \<open>double\<close> has these values and this
  arithmetic. Rounding and the sign of zero are left out: a finite value is the real
  number it stands for, and overflow happens beyond \<open>DBL_MAX\<close>, the largest finite
  \<open>double\<close>. The \<open>double\<close> on the right of \<open>*=\<close> is a weight or a half-width, a finite
  number, and stays a real number.
\<close>

datatype double = Finite real | PInf | NInf | NaN

definition DBL_MAX :: real where
  "DBL_MAX = (2 - 1 / 2 ^ 52) * 2 ^ 1023"

definition to_double :: "real \<Rightarrow> double" where
  "to_double r = (if DBL_MAX < r then PInf else if r < - DBL_MAX then NInf else Finite r)"

fun is_finite :: "double \<Rightarrow> bool" where
  "is_finite (Finite r) = True"
| "is_finite PInf = False"
| "is_finite NInf = False"
| "is_finite NaN = False"

text \<open>\<open>x += y\<close> on two values of type \<open>double\<close>.\<close>

fun add_double :: "double \<Rightarrow> double \<Rightarrow> double" where
  "add_double (Finite x) (Finite y) = to_double (x + y)"
| "add_double (Finite x) PInf = PInf"
| "add_double (Finite x) NInf = NInf"
| "add_double PInf (Finite y) = PInf"
| "add_double PInf PInf = PInf"
| "add_double PInf NInf = NaN"
| "add_double NInf (Finite y) = NInf"
| "add_double NInf PInf = NaN"
| "add_double NInf NInf = NInf"
| "add_double NaN y = NaN"
| "add_double (Finite x) NaN = NaN"
| "add_double PInf NaN = NaN"
| "add_double NInf NaN = NaN"

text \<open>\<open>x *= c\<close> with a finite \<open>c\<close>.\<close>

fun scale_double :: "real \<Rightarrow> double \<Rightarrow> double" where
  "scale_double c (Finite x) = to_double (c * x)"
| "scale_double c PInf = (if 0 < c then PInf else if c < 0 then NInf else NaN)"
| "scale_double c NInf = (if 0 < c then NInf else if c < 0 then PInf else NaN)"
| "scale_double c NaN = NaN"

instantiation double :: "{zero, plus, scaleR}"
begin

definition zero_double :: double where
  "zero_double = Finite 0"

definition plus_double :: "double \<Rightarrow> double \<Rightarrow> double" where
  "plus_double x y = add_double x y"

definition scaleR_double :: "real \<Rightarrow> double \<Rightarrow> double" where
  "scaleR_double c x = scale_double c x"

instance ..

end

section \<open>What the routines assume of a table\<close>

text \<open>
  Modelled from the spec: the contents of a table come from the constructor, which the
  header only declares. The specification gives the invariant
  \<open>len(roots[n]) == len(weights[n]) == n\<close> for each supported order \<open>n\<close>, stored at
  index \<open>n - 1\<close>.
\<close>

definition table_shape :: "ChQuadratureTables \<Rightarrow> bool" where
  "table_shape st \<longleftrightarrow>
     length (Weight st) = length (Lroots st) \<and>
     (\<forall>n\<in>{0..<length (Lroots st)}.
        length (Lroots st ! n) = Suc n \<and> length (Weight st ! n) = Suc n)"

text \<open>
  The entry that the second branch of the routines reads (lines 111 and 112): index 0 of
  the private table, in both vectors.
\<close>

definition private_entry :: "ChQuadratureTables \<Rightarrow> error + real list \<times> real list" where
  "private_entry mtables =
     (case subscript (Lroots mtables) 0 of
        Inl e \<Rightarrow> Inl e
      | Inr lroots \<Rightarrow>
         (case subscript (Weight mtables) 0 of
            Inl e \<Rightarrow> Inl e
          | Inr weight \<Rightarrow> Inr (lroots, weight)))"

subsection \<open>Concrete tables, constructor and world\<close>

text \<open>
  The Gauss-Legendre tables of orders 1, 2 and 3 in closed form: what
  \<open>ChQuadratureTables(1, 3)\<close> holds when its numbers are exact.
\<close>

definition gl_1_to_3 :: ChQuadratureTables where
  "gl_1_to_3 =
     \<lparr>Weight = [[2], [1, 1], [5 / 9, 8 / 9, 5 / 9]],
      Lroots = [[0], [- sqrt (1 / 3), sqrt (1 / 3)], [- sqrt (3 / 5), 0, sqrt (3 / 5)]]\<rparr>"

text \<open>A constructor that returns the single two-point table, whatever the order.\<close>

definition mk_two_point :: "c_int \<Rightarrow> c_int \<Rightarrow> ChQuadratureTables" where
  "mk_two_point order_from order_to =
     \<lparr>Weight = [[1, 1]], Lroots = [[- sqrt (1 / 3), sqrt (1 / 3)]]\<rparr>"

definition world0 :: world where
  "world0 = \<lparr>printed = [], allocated = 0\<rparr>"

subsection \<open>Symmetry and exactness of a table entry\<close>

text \<open>
  Modelled from the spec: the numbers in a table come from the constructor, which the
  header only declares. The specification says that the roots of an order are symmetric
  about 0; in a Gauss-Legendre rule the two roots of a mirrored pair carry the same
  weight. With the roots in ascending order this is a statement about the reversed lists.
\<close>

definition symmetric_rule :: "real list \<Rightarrow> real list \<Rightarrow> bool" where
  "symmetric_rule lroots weight \<longleftrightarrow>
     length weight = length lroots \<and> rev lroots = map uminus lroots \<and> rev weight = weight"

text \<open>
  Modelled from the spec: an entry of order \<open>n\<close> holds the Gauss-Legendre nodes and
  weights on the canonical interval \<open>[-1, 1]\<close>, which integrate every polynomial of degree
  at most \<open>2n - 1\<close> exactly. It is stated on the monomials: the weighted sum of \<open>x^k\<close>
  over the nodes is the integral of \<open>x^k\<close> over \<open>[-1, 1]\<close>, which is
  \<open>(1 - (-1)^(k+1)) / (k+1)\<close>, for every \<open>k < 2n\<close>.
\<close>

definition gauss_exact :: "nat \<Rightarrow> real list \<Rightarrow> real list \<Rightarrow> bool" where
  "gauss_exact n lroots weight \<longleftrightarrow>
     length lroots = n \<and> length weight = n \<and>
     (\<forall>k\<in>{0..<2 * n}.
        (\<Sum>i<n. weight ! i * lroots ! i ^ k) = (1 - (- 1) ^ Suc k) / real (Suc k))"

subsection \<open>Polynomial integrands and their closed-form integrals\<close>

text \<open>
  A polynomial is the list of its coefficients, constant term first; \<open>peval\<close> is the
  integrand that evaluates it. Its closed-form integral over \<open>[a, b]\<close> is the difference
  of the antiderivative with constant term 0 at \<open>b\<close> and at \<open>a\<close>.
\<close>

primrec peval :: "real list \<Rightarrow> real \<Rightarrow> real" where
  "peval [] x = 0"
| "peval (c # cs) x = c + x * peval cs x"

primrec antiderivative_from :: "nat \<Rightarrow> real list \<Rightarrow> real list" where
  "antiderivative_from k [] = []"
| "antiderivative_from k (c # cs) = c / real (Suc k) # antiderivative_from (Suc k) cs"

definition antiderivative :: "real list \<Rightarrow> real list" where
  "antiderivative p = 0 # antiderivative_from 0 p"

definition closed_form_integral :: "real list \<Rightarrow> real \<Rightarrow> real \<Rightarrow> real" where
  "closed_form_integral p a b = peval (antiderivative p) b - peval (antiderivative p) a"

subsection \<open>The product of two results\<close>


section \<open>What the constructor stores\<close>

text \<open>
  Modelled from the spec: the constructor \<open>ChQuadratureTables(order_from, order_to)\<close> is
  declared in the header and defined elsewhere. The specification: given
  \<open>order_from \<ge> 1\<close> and \<open>order_to \<ge> order_from\<close> it computes, for each order \<open>n\<close> in the
  range, the \<open>n\<close> roots of the Legendre polynomial of degree \<open>n\<close> and the corresponding
  integration weights, the roots stored in ascending order; the rule of order \<open>n\<close> is exact
  for polynomials of degree at most \<open>2n - 1\<close>. The routines of the header read order
  \<open>n\<close> at index \<open>n - order_from\<close>: index \<open>order - 1\<close> of the table made for the orders
  from 1, index 0 of the table made for one order. The roots have no closed form in
  general, so the constructor is modelled by what the table it returns satisfies, with
  exact numbers.
\<close>

definition constructed_tables :: "nat \<Rightarrow> nat \<Rightarrow> ChQuadratureTables \<Rightarrow> bool" where
  "constructed_tables order_from order_to t \<longleftrightarrow>
     1 \<le> order_from \<and> order_from \<le> order_to \<and>
     length (Lroots t) = order_to - order_from + 1 \<and>
     length (Weight t) = length (Lroots t) \<and>
     (\<forall>n\<in>{order_from..order_to}.
        gauss_exact n (Lroots t ! (n - order_from)) (Weight t ! (n - order_from)) \<and>
        sorted_wrt (<) (Lroots t ! (n - order_from)))"

subsection \<open>Products of linear factors\<close>

text \<open>
  The test polynomials of the proofs about a table entry, as coefficient lists:
  \<open>times_linear a b p\<close> is \<open>(a + b x) p(x)\<close>, \<open>linear_product\<close> is the product of the
  factors \<open>a + b x\<close> of a list, and \<open>others j l\<close> is the list \<open>l\<close> without its element
  \<open>j\<close>.
\<close>

primrec times_linear_carry :: "real \<Rightarrow> real \<Rightarrow> real \<Rightarrow> real list \<Rightarrow> real list" where
  "times_linear_carry a b carry [] = [carry]"
| "times_linear_carry a b carry (c # cs) = (a * c + carry) # times_linear_carry a b (b * c) cs"

definition times_linear :: "real \<Rightarrow> real \<Rightarrow> real list \<Rightarrow> real list" where
  "times_linear a b p = times_linear_carry a b 0 p"

primrec linear_product :: "(real \<times> real) list \<Rightarrow> real list" where
  "linear_product [] = [1]"
| "linear_product (f # fs) = times_linear (fst f) (snd f) (linear_product fs)"

definition others :: "nat \<Rightarrow> real list \<Rightarrow> real list" where
  "others j l = take j l @ drop (Suc j) l"

section \<open>A table after its construction\<close>

text \<open>
  What the header lets a program do with the shared table once it is constructed. A
  memory holds the table that \<open>GetStaticTables()\<close> points to and the world outside. The
  three routines get the table from \<open>GetStaticTables()\<close> (lines 103 to 106) and read its
  vectors with \<open>operator[]\<close>, \<open>size()\<close> and \<open>at()\<close>; they assign to nothing in it, so a call
  changes the world outside at most.
\<close>

record memory =
  static_tables :: ChQuadratureTables
  outside :: world





section \<open>Numerical differentiation link: ChLinkNumdiff\<close>

text \<open>
  The header of \<open>ChLinkNumdiff\<close> declares \<open>ImposeCoords\<close>, \<open>FetchCoords\<close>, \<open>ComputeC\<close>,
  \<open>ComputeCt\<close>, \<open>ComputeCq\<close> and \<open>UpdateState\<close> and defines none of them. The virtual
  method \<open>ComputeC\<close>, which a subclass overrides, is a parameter here: the residual as a
  function of the imposed coordinates \<open>q\<close> and time \<open>t\<close>, which may fail.
\<close>

datatype residual_error = ResidualFailure

type_synonym residual = "real list \<Rightarrow> real \<Rightarrow> residual_error + real list"

record constraint_terms =
  res_C :: "real list"
  res_Ct :: "real list"
  res_Cq :: "real list list"

text \<open>
  Modelled from the spec: the body of \<open>ChLinkNumdiff::ComputeC\<close> is missing. The
  specification gives its default as the zero vector (no constraint), and the header
  comment says \<open>Default: C = 0, no particular constraint\<close>. \<open>ndoc\<close> is the number of
  constraint equations.
\<close>

definition ComputeC_default :: "nat \<Rightarrow> residual" where
  "ComputeC_default ndoc q t = Inr (replicate ndoc 0)"

text \<open>
  The difference of two residual vectors divided by the perturbation \<open>h\<close>, component by
  component.
\<close>

definition difference_quotient :: "real \<Rightarrow> real list \<Rightarrow> real list \<Rightarrow> real list" where
  "difference_quotient h c0 c1 = map (\<lambda>(x, y). (y - x) / h) (zip c0 c1)"

text \<open>
  Modelled from the spec: the body of \<open>ChLinkNumdiff::ComputeCt\<close> is missing. The
  specification: evaluate the residual at the current state and at a perturbed time,
  subtract, and divide by the perturbation, a fixed step \<open>h\<close>.
\<close>

definition ComputeCt :: "residual \<Rightarrow> real \<Rightarrow> real list \<Rightarrow> real \<Rightarrow> residual_error + real list" where
  "ComputeCt ComputeC h q t =
     (case ComputeC q t of
        Inl e \<Rightarrow> Inl e
      | Inr c0 \<Rightarrow>
         (case ComputeC q (t + h) of
            Inl e \<Rightarrow> Inl e
          | Inr c1 \<Rightarrow> Inr (difference_quotient h c0 c1)))"

text \<open>
  Modelled from the spec: the loop in the body of \<open>ChLinkNumdiff::ComputeCq\<close>, which is
  missing. The specification: perturb each coordinate in turn, one at a time, impose the
  state, recompute the residual, take the difference with the unperturbed residual
  \<open>c0\<close> and divide by the perturbation; one Jacobian column per coordinate.
\<close>

fun jacobian_columns ::
  "residual \<Rightarrow> real \<Rightarrow> real list \<Rightarrow> real \<Rightarrow> real list \<Rightarrow> nat list \<Rightarrow>
     residual_error + real list list" where
  "jacobian_columns ComputeC h q t c0 [] = Inr []"
| "jacobian_columns ComputeC h q t c0 (i # is) =
     (case ComputeC (q[i := q ! i + h]) t of
        Inl e \<Rightarrow> Inl e
      | Inr ci \<Rightarrow>
         (case jacobian_columns ComputeC h q t c0 is of
            Inl e \<Rightarrow> Inl e
          | Inr cols \<Rightarrow> Inr (difference_quotient h c0 ci # cols)))"

text \<open>
  Modelled from the spec: \<open>ChLinkNumdiff::ComputeCq\<close>, whose body is missing: the
  unperturbed residual, then one column for each of the coordinates of \<open>q\<close>.
\<close>

definition ComputeCq ::
  "residual \<Rightarrow> real \<Rightarrow> real list \<Rightarrow> real \<Rightarrow> residual_error + real list list" where
  "ComputeCq ComputeC h q t =
     (case ComputeC q t of
        Inl e \<Rightarrow> Inl e
      | Inr c0 \<Rightarrow> jacobian_columns ComputeC h q t c0 [0..<length q])"

text \<open>
  Modelled from the spec: the body of \<open>ChLinkNumdiff::UpdateState\<close> is missing. The
  specification: impose the nominal state, compute the residual, then \<open>Ct\<close> and the
  Jacobians. A failure of the residual propagates.
\<close>

definition UpdateState ::
  "residual \<Rightarrow> real \<Rightarrow> real list \<Rightarrow> real \<Rightarrow> residual_error + constraint_terms" where
  "UpdateState ComputeC h q t =
     (case ComputeC q t of
        Inl e \<Rightarrow> Inl e
      | Inr c \<Rightarrow>
         (case ComputeCt ComputeC h q t of
            Inl e \<Rightarrow> Inl e
          | Inr ct \<Rightarrow>
             (case ComputeCq ComputeC h q t of
                Inl e \<Rightarrow> Inl e
              | Inr cq \<Rightarrow> Inr \<lparr>res_C = c, res_Ct = ct, res_Cq = cq\<rparr>)))"

section \<open>Auxiliary facts\<close>

subsection \<open>The cast to unsigned\<close>

lemma unat_sint_nonneg: "0 \<le> sint (x::32 word) \<Longrightarrow> unat x = nat (sint x)"
proof -
  assume h: "0 \<le> sint x"
  have "uint x = take_bit 32 (sint x)" using uint_sint[of x] by simp
  also have "\<dots> = sint x" using h sint_lt[of x] by (simp add: take_bit_int_eq_self)
  finally show ?thesis by (simp add: unat_eq_nat_uint)
qed

lemma unat_sint_neg: "sint (x::32 word) < 0 \<Longrightarrow> unat x = nat (sint x + 2 ^ 32)"
proof -
  assume h: "sint x < 0"
  have ge: "- (2 ^ 31) \<le> sint x" using sint_ge[of x] by simp
  have "uint x = take_bit 32 (sint x)" using uint_sint[of x] by simp
  also have "\<dots> = sint x mod 2 ^ 32" by (simp add: take_bit_eq_mod)
  also have "\<dots> = (sint x + 2 ^ 32) mod 2 ^ 32" by simp
  also have "\<dots> = sint x + 2 ^ 32"
  proof (rule mod_pos_pos_trivial)
    show "0 \<le> sint x + 2 ^ 32" using ge by simp
    show "sint x + 2 ^ 32 < 2 ^ 32" using h by simp
  qed
  finally show ?thesis by (simp add: unat_eq_nat_uint)
qed

lemma static_branch:
  assumes "1 \<le> sint (order::32 word)" "sint order \<le> int (length (Lroots st))"
  shows "unat order \<le> length (Lroots st)"
  using assms by (simp add: unat_sint_nonneg)

lemma private_branch_large:
  assumes "int (length (Lroots st)) < sint (order::32 word)"
  shows "\<not> unat order \<le> length (Lroots st)"
proof -
  have "0 \<le> sint order" using assms by linarith
  then show ?thesis using assms by (simp add: unat_sint_nonneg)
qed

lemma private_branch_negative:
  assumes "sint (order::32 word) < 0" "length (Lroots st) < 2 ^ 31"
  shows "\<not> unat order \<le> length (Lroots st)"
proof -
  have "- (2 ^ 31) \<le> sint order" using sint_ge[of order] by simp
  then have "2 ^ 31 \<le> nat (sint order + 2 ^ 32)" by simp
  then show ?thesis using assms by (simp add: unat_sint_neg)
qed

subsection \<open>Element access and the choice of the table\<close>

lemma subscript_0: "subscript v 0 = (if v = [] then Inl UndefinedBehaviour else Inr (v ! 0))"
  by (simp add: subscript_def)

lemma order_minus_1_pos:
  "1 \<le> sint (order::32 word) \<Longrightarrow> order_minus_1 order = Inr (sint order - 1)"
  by (simp add: order_minus_1_def)

lemma choose_tables_static:
  assumes "1 \<le> sint order" "sint order \<le> int (length (Lroots st))"
    and "length (Weight st) = length (Lroots st)"
  shows "choose_tables mk st w order =
           (Inr (Lroots st ! (nat (sint order) - 1), Weight st ! (nat (sint order) - 1), True), w)"
proof -
  have lt: "sint order < 2 ^ 31" using sint_lt[of order] by simp
  have k: "nat (sint order - 1) = nat (sint order) - 1" by simp
  have m: "(sint order - 1) mod 2 ^ 64 = sint order - 1"
    using assms(1) lt by (intro mod_pos_pos_trivial) simp_all
  have j: "nat (sint order - 1) < length (Lroots st)" using assms(1,2) by linarith
  have "subscript (Lroots st) (sint order - 1) = Inr (Lroots st ! (nat (sint order) - 1))"
    unfolding subscript_def m Let_def using j k by simp
  moreover have "subscript (Weight st) (sint order - 1) = Inr (Weight st ! (nat (sint order) - 1))"
    unfolding subscript_def m Let_def using j k assms(3) by simp
  ultimately show ?thesis
    using assms static_branch[OF assms(1,2)]
    by (simp add: choose_tables_def order_minus_1_pos)
qed

lemma choose_tables_zero:
  "length (Lroots st) < 2 ^ 64 \<Longrightarrow> choose_tables mk st w 0 = (Inl UndefinedBehaviour, w)"
  by (simp add: choose_tables_def order_minus_1_def subscript_def)

lemma choose_tables_private:
  assumes "\<not> unat order \<le> length (Lroots st)"
  shows "choose_tables mk st w order =
     (case subscript (Lroots (mk order order)) 0 of
        Inl e \<Rightarrow> Inl e
      | Inr lroots \<Rightarrow>
         (case subscript (Weight (mk order order)) 0 of
            Inl e \<Rightarrow> Inl e
          | Inr weight \<Rightarrow> Inr (lroots, weight, False)),
      \<lparr>printed = printed w @ [mk order order], allocated = Suc (allocated w)\<rparr>)"
  using assms
  by (simp add: choose_tables_def PrintTables_def Let_def split: sum.splits)

lemma table_shape_gl_1_to_3: "table_shape gl_1_to_3"
  by (simp add: table_shape_def gl_1_to_3_def upt_rec nth_Cons')

subsection \<open>The one-dimensional loop in closed form\<close>

lemma loop1D_in_range:
  "\<forall>i\<in>set is. i < length lroots \<and> i < length weight \<Longrightarrow>
   loop1D f c1 c2 lroots weight is res =
     Inr (res + (\<Sum>i\<leftarrow>is. (weight ! i) *\<^sub>R f (c1 * lroots ! i + c2)))"
  by (induction "is" arbitrary: res) (simp_all add: vec_at_def add.assoc)


lemma sum1D_in_range:
  fixes result :: "'a::real_vector"
  assumes "length lroots \<le> length weight"
  shows "sum1D result f a b lroots weight =
    Inr (((b - a) / 2) *\<^sub>R
      (\<Sum>i\<leftarrow>[0..<length lroots].
          (weight ! i) *\<^sub>R f ((b - a) / 2 * lroots ! i + (b + a) / 2)))"
  using assms by (simp add: sum1D_def Let_def loop1D_in_range)


lemma Integrate1D_private:
  fixes f :: "real \<Rightarrow> 'a::real_vector"
  assumes "\<not> unat order \<le> length (Lroots st)"
    and "Lroots (mk order order) \<noteq> []" "Weight (mk order order) \<noteq> []"
    and "length (Lroots (mk order order) ! 0) \<le> length (Weight (mk order order) ! 0)"
  shows "Integrate1D mk st w result f a b order =
    (Inr (((b - a) / 2) *\<^sub>R
       (\<Sum>i\<leftarrow>[0..<length (Lroots (mk order order) ! 0)].
           (Weight (mk order order) ! 0 ! i) *\<^sub>R
             f ((b - a) / 2 * Lroots (mk order order) ! 0 ! i + (b + a) / 2))),
     w\<lparr>printed := printed w @ [mk order order]\<rparr>)"
  using assms
  by (simp add: Integrate1D_def choose_tables_private subscript_0 release_def sum1D_in_range)

subsection \<open>The two- and three-dimensional loops in closed form\<close>
















subsection \<open>The result parameter and the world\<close>

lemma DBL_MAX_pos: "0 < DBL_MAX"
  unfolding DBL_MAX_def by (intro mult_pos_pos zero_less_power) simp_all

lemma to_double_0: "to_double 0 = Finite 0"
  using DBL_MAX_pos by (simp add: to_double_def)

lemma zero_times_Finite: "0 *\<^sub>R Finite r = Finite 0"
  by (simp add: scaleR_double_def to_double_0)

lemma zero_times_double: "0 *\<^sub>R (x::double) = (if is_finite x then 0 else NaN)"
  by (cases x) (simp_all add: scaleR_double_def to_double_0 zero_double_def)

lemma DBL_MAX_ge: "1000 \<le> DBL_MAX"
proof -
  have "(1000::real) \<le> 2 ^ 10" by simp
  also have "(2::real) ^ 10 \<le> 2 ^ 1023" by (rule power_increasing) simp_all
  finally have p: "(1000::real) \<le> 2 ^ 1023" .
  have "(1::real) \<le> 2 - 1 / 2 ^ 52" by simp
  then have "1 * (2::real) ^ 1023 \<le> (2 - 1 / 2 ^ 52) * 2 ^ 1023"
    by (intro mult_right_mono) simp_all
  then have "(2::real) ^ 1023 \<le> DBL_MAX" unfolding DBL_MAX_def by linarith
  with p show ?thesis by linarith
qed

lemma to_double_Finite: "\<bar>r\<bar> \<le> DBL_MAX \<Longrightarrow> to_double r = Finite r"
  by (simp add: to_double_def abs_le_iff not_less)

lemma to_double_small: "\<bar>r\<bar> \<le> 1000 \<Longrightarrow> to_double r = Finite r"
  using DBL_MAX_ge by (intro to_double_Finite) linarith

lemma sum1D_Finite_result:
  fixes f :: "real \<Rightarrow> double"
  shows "sum1D (Finite ra) f a b lroots weight = sum1D (Finite rb) f a b lroots weight"
  by (simp add: sum1D_def zero_times_Finite)

lemma sum2D_Finite_result:
  fixes f :: "real \<Rightarrow> real \<Rightarrow> double"
  shows "sum2D (Finite ra) f Xa Xb Ya Yb lroots weight
           = sum2D (Finite rb) f Xa Xb Ya Yb lroots weight"
  by (simp add: sum2D_def zero_times_Finite)

lemma sum3D_Finite_result:
  fixes f :: "real \<Rightarrow> real \<Rightarrow> real \<Rightarrow> double"
  shows "sum3D (Finite ra) f Xa Xb Ya Yb Za Zb lroots weight
           = sum3D (Finite rb) f Xa Xb Ya Yb Za Zb lroots weight"
  by (simp add: sum3D_def zero_times_Finite)

lemma choose_tables_static_world:
  assumes "unat order \<le> length (Lroots st)"
  shows "snd (choose_tables mk st w order) = w"
    and "fst (choose_tables mk st w order) = Inr (l, wt, s) \<Longrightarrow> s"
  using assms by (auto simp: choose_tables_def split: sum.splits)

lemma release_static: "snd (release True r w) = w"
  by (simp add: release_def split: sum.splits)

lemma release_printed: "printed (snd (release s r w)) = printed w"
  by (simp add: release_def split: sum.splits)

lemma Integrate1D_static_world:
  assumes "unat order \<le> length (Lroots st)"
  shows "snd (Integrate1D mk st w result f a b order) = w"
proof (cases "choose_tables mk st w order")
  case (Pair r w')
  have w': "w' = w" using choose_tables_static_world(1)[OF assms, of mk w] Pair by simp
  show ?thesis
  proof (cases r)
    case (Inl e)
    with Pair w' show ?thesis by (simp add: Integrate1D_def)
  next
    case (Inr t)
    obtain l wt s where t: "t = (l, wt, s)" by (cases t)
    have s using choose_tables_static_world(2)[OF assms, of mk w l wt s] Pair Inr t by simp
    with Pair Inr t w' show ?thesis by (simp add: Integrate1D_def release_static)
  qed
qed

lemma Integrate2D_static_world:
  assumes "unat order \<le> length (Lroots st)"
  shows "snd (Integrate2D mk st w result f Xa Xb Ya Yb order) = w"
proof (cases "choose_tables mk st w order")
  case (Pair r w')
  have w': "w' = w" using choose_tables_static_world(1)[OF assms, of mk w] Pair by simp
  show ?thesis
  proof (cases r)
    case (Inl e)
    with Pair w' show ?thesis by (simp add: Integrate2D_def)
  next
    case (Inr t)
    obtain l wt s where t: "t = (l, wt, s)" by (cases t)
    have s using choose_tables_static_world(2)[OF assms, of mk w l wt s] Pair Inr t by simp
    with Pair Inr t w' show ?thesis by (simp add: Integrate2D_def release_static)
  qed
qed

lemma Integrate3D_static_world:
  assumes "unat order \<le> length (Lroots st)"
  shows "snd (Integrate3D mk st w result f Xa Xb Ya Yb Za Zb order) = w"
proof (cases "choose_tables mk st w order")
  case (Pair r w')
  have w': "w' = w" using choose_tables_static_world(1)[OF assms, of mk w] Pair by simp
  show ?thesis
  proof (cases r)
    case (Inl e)
    with Pair w' show ?thesis by (simp add: Integrate3D_def)
  next
    case (Inr t)
    obtain l wt s where t: "t = (l, wt, s)" by (cases t)
    have s using choose_tables_static_world(2)[OF assms, of mk w l wt s] Pair Inr t by simp
    with Pair Inr t w' show ?thesis by (simp add: Integrate3D_def release_static)
  qed
qed

lemma Integrate1D_private_printed:
  assumes "\<not> unat order \<le> length (Lroots st)"
  shows "printed (snd (Integrate1D mk st w result f a b order)) = printed w @ [mk order order]"
  using assms
  by (simp add: Integrate1D_def choose_tables_private release_printed split: sum.splits prod.splits)

lemma Integrate2D_private_printed:
  assumes "\<not> unat order \<le> length (Lroots st)"
  shows "printed (snd (Integrate2D mk st w result f Xa Xb Ya Yb order))
           = printed w @ [mk order order]"
  using assms
  by (simp add: Integrate2D_def choose_tables_private release_printed split: sum.splits prod.splits)

lemma Integrate3D_private_printed:
  assumes "\<not> unat order \<le> length (Lroots st)"
  shows "printed (snd (Integrate3D mk st w result f Xa Xb Ya Yb Za Zb order))
           = printed w @ [mk order order]"
  using assms
  by (simp add: Integrate3D_def choose_tables_private release_printed split: sum.splits prod.splits)

lemma Integrate1D_Finite_result:
  fixes f :: "real \<Rightarrow> double"
  shows "Integrate1D mk st w (Finite ra) f a b order = Integrate1D mk st w (Finite rb) f a b order"
  unfolding Integrate1D_def using sum1D_Finite_result[of ra f _ _ _ _ rb]
  by (simp split: sum.splits prod.splits)

lemma Integrate2D_Finite_result:
  fixes f :: "real \<Rightarrow> real \<Rightarrow> double"
  shows "Integrate2D mk st w (Finite ra) f Xa Xb Ya Yb order
           = Integrate2D mk st w (Finite rb) f Xa Xb Ya Yb order"
  unfolding Integrate2D_def using sum2D_Finite_result[of ra f _ _ _ _ _ _ rb]
  by (simp split: sum.splits prod.splits)

lemma Integrate3D_Finite_result:
  fixes f :: "real \<Rightarrow> real \<Rightarrow> real \<Rightarrow> double"
  shows "Integrate3D mk st w (Finite ra) f Xa Xb Ya Yb Za Zb order
           = Integrate3D mk st w (Finite rb) f Xa Xb Ya Yb Za Zb order"
  unfolding Integrate3D_def using sum3D_Finite_result[of ra f _ _ _ _ _ _ _ _ rb]
  by (simp split: sum.splits prod.splits)

lemma sum_list_upt: "(\<Sum>i\<leftarrow>[0..<n]. g i) = (\<Sum>i<n. g i)"
  by (simp add: interv_sum_list_conv_sum_set_nat atLeast0LessThan)

subsection \<open>Orders inside and outside the static range\<close>

lemma static_entry_lengths:
  assumes "1 \<le> sint (order::32 word)" "sint order \<le> int (length (Lroots st))" "table_shape st"
  shows "length (Lroots st ! (nat (sint order) - 1)) = nat (sint order)"
    and "length (Weight st ! (nat (sint order) - 1)) = nat (sint order)"
    and "length (Weight st) = length (Lroots st)"
proof -
  have k: "nat (sint order) - 1 \<in> {0..<length (Lroots st)}" using assms(1,2) by auto
  show "length (Lroots st ! (nat (sint order) - 1)) = nat (sint order)"
    "length (Weight st ! (nat (sint order) - 1)) = nat (sint order)"
    using assms(1,3) k unfolding table_shape_def by fastforce+
  show "length (Weight st) = length (Lroots st)"
    using assms(3) by (simp add: table_shape_def)
qed

lemma release_True: "release True r w = (r, w)"
  by (simp add: release_def split: sum.splits)

lemma Integrate1D_static_sum:
  assumes "1 \<le> sint order" "sint order \<le> int (length (Lroots st))" "table_shape st"
  shows "Integrate1D mk st w result f a b order =
     (sum1D result f a b (Lroots st ! (nat (sint order) - 1))
        (Weight st ! (nat (sint order) - 1)), w)"
  unfolding Integrate1D_def
    choose_tables_static[OF assms(1,2) static_entry_lengths(3)[OF assms]]
  by (simp add: release_True)

lemma Integrate2D_static:
  assumes "1 \<le> sint order" "sint order \<le> int (length (Lroots st))" "table_shape st"
  shows "Integrate2D mk st w result f Xa Xb Ya Yb order =
     (sum2D result f Xa Xb Ya Yb (Lroots st ! (nat (sint order) - 1))
        (Weight st ! (nat (sint order) - 1)), w)"
  unfolding Integrate2D_def
    choose_tables_static[OF assms(1,2) static_entry_lengths(3)[OF assms]]
  by (simp add: release_True)

lemma Integrate3D_static:
  assumes "1 \<le> sint order" "sint order \<le> int (length (Lroots st))" "table_shape st"
  shows "Integrate3D mk st w result f Xa Xb Ya Yb Za Zb order =
     (sum3D result f Xa Xb Ya Yb Za Zb (Lroots st ! (nat (sint order) - 1))
        (Weight st ! (nat (sint order) - 1)), w)"
  unfolding Integrate3D_def
    choose_tables_static[OF assms(1,2) static_entry_lengths(3)[OF assms]]
  by (simp add: release_True)

lemma loop1D_returns:
  "\<forall>i\<in>set is. i < length lroots \<and> i < length weight \<Longrightarrow>
   \<exists>s. loop1D f c1 c2 lroots weight is res = Inr s"
  by (induction "is" arbitrary: res) (simp_all add: vec_at_def)

lemma loop2D_y_returns:
  "ix < length lroots \<Longrightarrow> ix < length weight \<Longrightarrow>
   \<forall>i\<in>set iys. i < length lroots \<and> i < length weight \<Longrightarrow>
   \<exists>s. loop2D_y f Xc1 Xc2 Yc1 Yc2 lroots weight ix iys res = Inr s"
  by (induction iys arbitrary: res) (simp_all add: vec_at_def)

lemma loop2D_x_returns:
  assumes "length lroots \<le> length weight" "\<forall>i\<in>set ixs. i < length lroots"
  shows "\<exists>s. loop2D_x f Xc1 Xc2 Yc1 Yc2 lroots weight ixs res = Inr s"
  using assms(2)
proof (induction ixs arbitrary: res)
  case Nil
  show ?case by simp
next
  case (Cons ix ixs)
  have ix: "ix < length lroots" "ix < length weight" using Cons.prems assms(1) by auto
  have "\<forall>i\<in>set [0..<length lroots]. i < length lroots \<and> i < length weight"
    using assms(1) by auto
  from loop2D_y_returns[OF ix this]
  obtain s where "loop2D_y f Xc1 Xc2 Yc1 Yc2 lroots weight ix [0..<length lroots] res = Inr s"
    by blast
  then show ?case using Cons.IH[of s] Cons.prems by simp
qed

lemma loop3D_z_returns:
  "ix < length lroots \<Longrightarrow> ix < length weight \<Longrightarrow> iy < length lroots \<Longrightarrow> iy < length weight \<Longrightarrow>
   \<forall>i\<in>set izs. i < length lroots \<and> i < length weight \<Longrightarrow>
   \<exists>s. loop3D_z f Xc1 Xc2 Yc1 Yc2 Zc1 Zc2 lroots weight ix iy izs res = Inr s"
  by (induction izs arbitrary: res) (simp_all add: vec_at_def)

lemma loop3D_y_returns:
  assumes "length lroots \<le> length weight" "ix < length lroots" "\<forall>i\<in>set iys. i < length lroots"
  shows "\<exists>s. loop3D_y f Xc1 Xc2 Yc1 Yc2 Zc1 Zc2 lroots weight ix iys res = Inr s"
  using assms(3)
proof (induction iys arbitrary: res)
  case Nil
  show ?case by simp
next
  case (Cons iy iys)
  have ix: "ix < length lroots" "ix < length weight" using assms(1,2) by auto
  have iy: "iy < length lroots" "iy < length weight" using Cons.prems assms(1) by auto
  have "\<forall>i\<in>set [0..<length lroots]. i < length lroots \<and> i < length weight"
    using assms(1) by auto
  from loop3D_z_returns[OF ix iy this]
  obtain s where
    "loop3D_z f Xc1 Xc2 Yc1 Yc2 Zc1 Zc2 lroots weight ix iy [0..<length lroots] res = Inr s"
    by blast
  then show ?case using Cons.IH[of s] Cons.prems by simp
qed

lemma loop3D_x_returns:
  assumes "length lroots \<le> length weight" "\<forall>i\<in>set ixs. i < length lroots"
  shows "\<exists>s. loop3D_x f Xc1 Xc2 Yc1 Yc2 Zc1 Zc2 lroots weight ixs res = Inr s"
  using assms(2)
proof (induction ixs arbitrary: res)
  case Nil
  show ?case by simp
next
  case (Cons ix ixs)
  have ix: "ix < length lroots" using Cons.prems by auto
  have "\<forall>i\<in>set [0..<length lroots]. i < length lroots" by auto
  from loop3D_y_returns[OF assms(1) ix this]
  obtain s where
    "loop3D_y f Xc1 Xc2 Yc1 Yc2 Zc1 Zc2 lroots weight ix [0..<length lroots] res = Inr s"
    by blast
  then show ?case using Cons.IH[of s] Cons.prems by simp
qed

lemma sum_returns:
  assumes "length lroots \<le> length weight"
  shows "\<exists>s. sum1D result f a b lroots weight = Inr s"
    and "\<exists>s. sum2D result g Xa Xb Ya Yb lroots weight = Inr s"
    and "\<exists>s. sum3D result h Xa Xb Ya Yb Za Zb lroots weight = Inr s"
proof -
  have i: "\<forall>i\<in>set [0..<length lroots]. i < length lroots \<and> i < length weight"
    using assms by auto
  have j: "\<forall>i\<in>set [0..<length lroots]. i < length lroots" by auto
  obtain s where "loop1D f ((b - a) / 2) ((b + a) / 2) lroots weight [0..<length lroots]
      (0 *\<^sub>R result) = Inr s"
    using loop1D_returns[OF i] by blast
  then show "\<exists>s. sum1D result f a b lroots weight = Inr s"
    by (simp add: sum1D_def Let_def)
  obtain s where "loop2D_x g ((Xb - Xa) / 2) ((Xb + Xa) / 2) ((Yb - Ya) / 2) ((Yb + Ya) / 2)
      lroots weight [0..<length lroots] (0 *\<^sub>R result) = Inr s"
    using loop2D_x_returns[OF assms j] by blast
  then show "\<exists>s. sum2D result g Xa Xb Ya Yb lroots weight = Inr s"
    by (simp add: sum2D_def Let_def)
  obtain s where "loop3D_x h ((Xb - Xa) / 2) ((Xb + Xa) / 2) ((Yb - Ya) / 2) ((Yb + Ya) / 2)
      ((Zb - Za) / 2) ((Zb + Za) / 2) lroots weight [0..<length lroots] (0 *\<^sub>R result) = Inr s"
    using loop3D_x_returns[OF assms j] by blast
  then show "\<exists>s. sum3D result h Xa Xb Ya Yb Za Zb lroots weight = Inr s"
    by (simp add: sum3D_def Let_def)
qed

lemma Integrate_static_no_error:
  assumes "1 \<le> sint order" "sint order \<le> int (length (Lroots st))" "table_shape st"
  shows "\<exists>r. fst (Integrate1D mk st w result f a b order) = Inr r"
    and "\<exists>r. fst (Integrate2D mk st w result g Xa Xb Ya Yb order) = Inr r"
    and "\<exists>r. fst (Integrate3D mk st w result h Xa Xb Ya Yb Za Zb order) = Inr r"
proof -
  have l: "length (Lroots st ! (nat (sint order) - 1))
             \<le> length (Weight st ! (nat (sint order) - 1))"
    using static_entry_lengths(1,2)[OF assms] by simp
  show "\<exists>r. fst (Integrate1D mk st w result f a b order) = Inr r"
    using sum_returns(1)[OF l, of result f a b]
    unfolding Integrate1D_static_sum[OF assms] by simp
  show "\<exists>r. fst (Integrate2D mk st w result g Xa Xb Ya Yb order) = Inr r"
    using sum_returns(2)[OF l, of result g Xa Xb Ya Yb]
    unfolding Integrate2D_static[OF assms] by simp
  show "\<exists>r. fst (Integrate3D mk st w result h Xa Xb Ya Yb Za Zb order) = Inr r"
    using sum_returns(3)[OF l, of result h Xa Xb Ya Yb Za Zb]
    unfolding Integrate3D_static[OF assms] by simp
qed

subsection \<open>Equal bounds in double precision\<close>




text \<open>
  An incoming value that is NaN or an infinity: line 119 makes it NaN, and NaN it stays.
\<close>

lemma loop1D_NaN:
  fixes f :: "real \<Rightarrow> double"
  shows "\<forall>i\<in>set is. i < length lroots \<and> i < length weight \<Longrightarrow>
         loop1D f c1 c2 lroots weight is NaN = Inr NaN"
  by (induction "is") (simp_all add: vec_at_def plus_double_def)

lemma Integrate1D_incoming_not_finite:
  fixes f :: "real \<Rightarrow> double"
  assumes "1 \<le> sint order" "sint order \<le> int (length (Lroots st))" "table_shape st"
    and "\<not> is_finite result"
  shows "fst (Integrate1D mk st w result f a b order) = Inr NaN"
proof -
  let ?l = "Lroots st ! (nat (sint order) - 1)" and ?wt = "Weight st ! (nat (sint order) - 1)"
  have i: "\<forall>i\<in>set [0..<length ?l]. i < length ?l \<and> i < length ?wt"
    using static_entry_lengths(1,2)[OF assms(1-3)] by simp
  have z: "0 *\<^sub>R result = NaN" using assms(4) by (simp add: zero_times_double)
  have n: "((b - a) / 2) *\<^sub>R NaN = NaN" by (simp add: scaleR_double_def)
  have "sum1D result f a b ?l ?wt = Inr NaN"
    unfolding sum1D_def Let_def z loop1D_NaN[OF i] using n by simp
  then show ?thesis by (simp add: Integrate1D_static_sum[OF assms(1-3)])
qed

lemma Integrate_order_zero:
  assumes "length (Lroots st) < 2 ^ 64"
  shows "fst (Integrate1D mk st w result f a b 0) = Inl UndefinedBehaviour"
    and "fst (Integrate2D mk st w result g Xa Xb Ya Yb 0) = Inl UndefinedBehaviour"
    and "fst (Integrate3D mk st w result h Xa Xb Ya Yb Za Zb 0) = Inl UndefinedBehaviour"
  by (simp_all add: Integrate1D_def Integrate2D_def Integrate3D_def choose_tables_zero[OF assms])

lemma Integrate_private_result:
  assumes "\<not> unat order \<le> length (Lroots st)"
  shows "fst (Integrate1D mk st w result f a b order) =
           (case private_entry (mk order order) of
              Inl e \<Rightarrow> Inl e
            | Inr (lroots, weight) \<Rightarrow> sum1D result f a b lroots weight)"
    and "fst (Integrate2D mk st w result g Xa Xb Ya Yb order) =
           (case private_entry (mk order order) of
              Inl e \<Rightarrow> Inl e
            | Inr (lroots, weight) \<Rightarrow> sum2D result g Xa Xb Ya Yb lroots weight)"
    and "fst (Integrate3D mk st w result h Xa Xb Ya Yb Za Zb order) =
           (case private_entry (mk order order) of
              Inl e \<Rightarrow> Inl e
            | Inr (lroots, weight) \<Rightarrow> sum3D result h Xa Xb Ya Yb Za Zb lroots weight)"
  using assms
  by (simp_all add: Integrate1D_def Integrate2D_def Integrate3D_def choose_tables_private
      private_entry_def release_def split: sum.splits)

subsection \<open>Separable integrands\<close>

lemma fst_release: "fst (release s r w) = r"
  by (simp add: release_def split: sum.splits)

lemma fst_Integrate1D:
  "fst (Integrate1D mk st w result f a b order) =
     (case fst (choose_tables mk st w order) of
        Inl e \<Rightarrow> Inl e
      | Inr (l, wt, s) \<Rightarrow> sum1D result f a b l wt)"
  by (simp add: Integrate1D_def fst_release split: prod.splits sum.splits)







subsection \<open>Symmetric entries\<close>



subsection \<open>Polynomials and the change of variables\<close>

lemma binomial_shift:
  "real (Suc k choose Suc j) / real (Suc k) = real (k choose j) / real (Suc j)"
proof -
  have "real (Suc k) * real (k choose j) = real (Suc k choose Suc j) * real (Suc j)"
    using Suc_times_binomial_eq[of k j] by (metis of_nat_mult)
  then show ?thesis by (simp add: field_simps)
qed

lemma power_difference_expansion:
  fixes c1 c2 :: real
  shows "(c2 + c1) ^ Suc k - (c2 - c1) ^ Suc k =
           (\<Sum>j\<le>k. real (Suc k choose Suc j) * c1 ^ Suc j * c2 ^ (k - j) * (1 - (- 1) ^ Suc j))"
proof -
  have p: "(c2 + c1) ^ Suc k = (\<Sum>j\<le>Suc k. real (Suc k choose j) * c1 ^ j * c2 ^ (Suc k - j))"
    using binomial_ring[of c1 c2 "Suc k"] by (simp add: add.commute)
  have m: "(c2 - c1) ^ Suc k
             = (\<Sum>j\<le>Suc k. real (Suc k choose j) * (- c1) ^ j * c2 ^ (Suc k - j))"
    using binomial_ring[of "- c1" c2 "Suc k"] by simp
  have "(c2 + c1) ^ Suc k - (c2 - c1) ^ Suc k =
          (\<Sum>j\<le>Suc k. real (Suc k choose j) * c1 ^ j * c2 ^ (Suc k - j) * (1 - (- 1) ^ j))"
    unfolding p m sum_subtractf[symmetric]
    by (rule sum.cong) (simp_all add: power_minus[of c1] algebra_simps)
  also have "\<dots> =
      (\<Sum>j\<le>k. real (Suc k choose Suc j) * c1 ^ Suc j * c2 ^ (k - j) * (1 - (- 1) ^ Suc j))"
    by (subst sum.atMost_Suc_shift) simp
  finally show ?thesis .
qed

lemma moment_affine:
  fixes w r :: "nat \<Rightarrow> real"
  assumes m: "\<And>j. j \<le> k \<Longrightarrow> (\<Sum>i<n. w i * r i ^ j) = (1 - (- 1) ^ Suc j) / real (Suc j)"
  shows "c1 * (\<Sum>i<n. w i * (c1 * r i + c2) ^ k)
           = ((c2 + c1) ^ Suc k - (c2 - c1) ^ Suc k) / real (Suc k)"
proof -
  have "(\<Sum>i<n. w i * (c1 * r i + c2) ^ k)
          = (\<Sum>i<n. \<Sum>j\<le>k. real (k choose j) * c1 ^ j * c2 ^ (k - j) * (w i * r i ^ j))"
    by (rule sum.cong)
      (simp_all add: binomial_ring[of "c1 * _" c2 k] sum_distrib_left power_mult_distrib
        mult_ac)
  also have "\<dots> = (\<Sum>j\<le>k. \<Sum>i<n. real (k choose j) * c1 ^ j * c2 ^ (k - j) * (w i * r i ^ j))"
    by (rule sum.swap)
  also have "\<dots> = (\<Sum>j\<le>k. real (k choose j) * c1 ^ j * c2 ^ (k - j) * (\<Sum>i<n. w i * r i ^ j))"
    by (simp only: sum_distrib_left)
  also have "\<dots> = (\<Sum>j\<le>k. real (k choose j) * c1 ^ j * c2 ^ (k - j)
                          * ((1 - (- 1) ^ Suc j) / real (Suc j)))"
    by (rule sum.cong) (simp_all add: m)
  finally have "c1 * (\<Sum>i<n. w i * (c1 * r i + c2) ^ k)
      = (\<Sum>j\<le>k. real (k choose j) / real (Suc j) * c1 ^ Suc j * c2 ^ (k - j)
                     * (1 - (- 1) ^ Suc j))"
    by (simp add: sum_distrib_left mult_ac)
  also have "\<dots> = (\<Sum>j\<le>k. real (Suc k choose Suc j) / real (Suc k) * c1 ^ Suc j * c2 ^ (k - j)
                     * (1 - (- 1) ^ Suc j))"
    by (simp only: binomial_shift)
  also have "\<dots> = ((c2 + c1) ^ Suc k - (c2 - c1) ^ Suc k) / real (Suc k)"
    unfolding power_difference_expansion sum_divide_distrib
    by (rule sum.cong) simp_all
  finally show ?thesis .
qed

lemma peval_sum: "peval p x = (\<Sum>k<length p. p ! k * x ^ k)"
proof (induction p)
  case Nil
  show ?case by simp
next
  case (Cons c cs)
  have "(\<Sum>k<Suc (length cs). (c # cs) ! k * x ^ k)
          = (c # cs) ! 0 * x ^ 0 + (\<Sum>k<length cs. (c # cs) ! Suc k * x ^ Suc k)"
    by (rule sum.lessThan_Suc_shift)
  also have "\<dots> = c + x * (\<Sum>k<length cs. cs ! k * x ^ k)"
    by (simp add: sum_distrib_left mult_ac)
  finally show ?case by (simp add: Cons.IH)
qed

lemma length_antiderivative_from: "length (antiderivative_from j p) = length p"
  by (induction p arbitrary: j) simp_all

lemma nth_antiderivative_from:
  "k < length p \<Longrightarrow> antiderivative_from j p ! k = p ! k / real (Suc (j + k))"
proof (induction p arbitrary: j k)
  case Nil
  then show ?case by simp
next
  case (Cons c cs)
  then show ?case by (cases k) simp_all
qed

lemma peval_antiderivative:
  "peval (antiderivative p) x = (\<Sum>k<length p. p ! k * x ^ Suc k / real (Suc k))"
proof -
  have "peval (antiderivative p) x = x * peval (antiderivative_from 0 p) x"
    by (simp add: antiderivative_def)
  also have "\<dots> = x * (\<Sum>k<length p. p ! k / real (Suc k) * x ^ k)"
    unfolding peval_sum length_antiderivative_from
    by (simp add: nth_antiderivative_from)
  also have "\<dots> = (\<Sum>k<length p. p ! k * x ^ Suc k / real (Suc k))"
    unfolding sum_distrib_left by (rule sum.cong) simp_all
  finally show ?thesis .
qed

lemma closed_form_integral_sum:
  "closed_form_integral p a b
     = (\<Sum>k<length p. p ! k * ((b ^ Suc k - a ^ Suc k) / real (Suc k)))"
  unfolding closed_form_integral_def peval_antiderivative sum_subtractf[symmetric]
  by (rule sum.cong) (simp_all add: right_diff_distrib diff_divide_distrib)

lemma antiderivative_has_derivative:
  "((\<lambda>x. peval (antiderivative p) x) has_real_derivative peval p x) (at x)"
proof -
  have "((\<lambda>x. \<Sum>k<length p. p ! k * x ^ Suc k / real (Suc k))
           has_real_derivative (\<Sum>k<length p. p ! k * x ^ k)) (at x)"
    by (rule DERIV_sum) (auto intro!: derivative_eq_intros simp del: power_Suc)
  then show ?thesis
    unfolding peval_sum[of p x] peval_antiderivative[abs_def] .
qed

lemma gauss_moment_polynomial:
  assumes "gauss_exact n l wt" "length p \<le> 2 * n"
  shows "c1 * (\<Sum>i<n. wt ! i * peval p (c1 * l ! i + c2))
           = closed_form_integral p (c2 - c1) (c2 + c1)"
proof -
  have mom: "(\<Sum>i<n. wt ! i * l ! i ^ j) = (1 - (- 1) ^ Suc j) / real (Suc j)"
    if "j < 2 * n" for j
    using assms(1) that by (simp add: gauss_exact_def)
  have "c1 * (\<Sum>i<n. wt ! i * peval p (c1 * l ! i + c2))
          = c1 * (\<Sum>i<n. \<Sum>k<length p. p ! k * (wt ! i * (c1 * l ! i + c2) ^ k))"
    unfolding peval_sum sum_distrib_left by (simp add: mult_ac)
  also have "\<dots> = c1 * (\<Sum>k<length p. \<Sum>i<n. p ! k * (wt ! i * (c1 * l ! i + c2) ^ k))"
    by (subst sum.swap) simp
  also have "\<dots> = (\<Sum>k<length p. p ! k * (c1 * (\<Sum>i<n. wt ! i * (c1 * l ! i + c2) ^ k)))"
    by (simp add: sum_distrib_left mult_ac)
  also have "\<dots> = (\<Sum>k<length p. p ! k
                        * (((c2 + c1) ^ Suc k - (c2 - c1) ^ Suc k) / real (Suc k)))"
  proof (rule sum.cong)
    fix k assume "k \<in> {..<length p}"
    then have k: "k < 2 * n" using assms(2) by simp
    have "c1 * (\<Sum>i<n. wt ! i * (c1 * l ! i + c2) ^ k)
            = ((c2 + c1) ^ Suc k - (c2 - c1) ^ Suc k) / real (Suc k)"
      by (rule moment_affine) (use k mom in simp)
    then show "p ! k * (c1 * (\<Sum>i<n. wt ! i * (c1 * l ! i + c2) ^ k))
                 = p ! k * (((c2 + c1) ^ Suc k - (c2 - c1) ^ Suc k) / real (Suc k))"
      by simp
  qed simp
  also have "\<dots> = closed_form_integral p (c2 - c1) (c2 + c1)"
    by (simp only: closed_form_integral_sum)
  finally show ?thesis .
qed

lemma below_6: "k \<in> {0..<6} \<Longrightarrow> k = 0 \<or> k = 1 \<or> k = 2 \<or> k = 3 \<or> k = 4 \<or> k = (5::nat)"
  by auto

lemma sqrt_3_5_powers:
  "sqrt (3 / 5) ^ 2 = 3 / 5" "sqrt (3 / 5) ^ 3 = 3 / 5 * sqrt (3 / 5)"
  "sqrt (3 / 5) ^ 4 = 9 / 25" "sqrt (3 / 5) ^ 5 = 9 / 25 * sqrt (3 / 5)"
proof -
  show a: "sqrt (3 / 5) ^ 2 = 3 / 5" by simp
  have "sqrt (3 / 5) ^ 3 = sqrt (3 / 5) ^ 2 * sqrt (3 / 5)" by (simp add: power3_eq_cube power2_eq_square)
  then show "sqrt (3 / 5) ^ 3 = 3 / 5 * sqrt (3 / 5)" unfolding a .
  have "sqrt (3 / 5) ^ 4 = sqrt (3 / 5) ^ 2 * sqrt (3 / 5) ^ 2"
    by (simp only: power_add[symmetric]) simp
  then show b: "sqrt (3 / 5) ^ 4 = 9 / 25" unfolding a by simp
  have "sqrt (3 / 5) ^ 5 = sqrt (3 / 5) ^ 4 * sqrt (3 / 5)" by (simp add: eval_nat_numeral)
  then show "sqrt (3 / 5) ^ 5 = 9 / 25 * sqrt (3 / 5)" unfolding b .
qed

lemma gauss_exact_order_3:
  "gauss_exact 3 (Lroots gl_1_to_3 ! 2) (Weight gl_1_to_3 ! 2)"
proof -
  have "(\<Sum>i<3. [5 / 9, 8 / 9, 5 / 9] ! i * [- sqrt (3 / 5), 0, sqrt (3 / 5)] ! i ^ k)
          = (1 - (- 1) ^ Suc k) / real (Suc k)" if "k \<in> {0..<6}" for k
    using below_6[OF that]
    by (elim disjE) (simp_all add: numeral_3_eq_3 lessThan_Suc sqrt_3_5_powers)
  then show ?thesis
    by (simp add: gauss_exact_def gl_1_to_3_def)
qed

subsection \<open>Finite differences of the zero residual\<close>

lemma difference_quotient_zero:
  "difference_quotient h (replicate n 0) (replicate n 0) = replicate n 0"
  by (simp add: difference_quotient_def)

lemma jacobian_columns_default:
  "jacobian_columns (ComputeC_default n) h q t (replicate n 0) is
     = Inr (replicate (length is) (replicate n 0))"
  by (induction "is") (simp_all add: ComputeC_default_def difference_quotient_zero)

subsection \<open>Two one-dimensional integrals with the two-point rule\<close>



subsection \<open>Integrals of polynomials that are not negative\<close>

lemma exact_on_polynomials:
  assumes "gauss_exact n l wt" "length q \<le> 2 * n"
  shows "(\<Sum>i<n. wt ! i * peval q (l ! i)) = closed_form_integral q (- 1) 1"
  using gauss_moment_polynomial[OF assms, of 1 0] by simp

lemma integral_nonneg:
  assumes nonneg: "\<And>x. - 1 \<le> x \<Longrightarrow> x \<le> 1 \<Longrightarrow> 0 \<le> peval q x"
    and that: "- 1 \<le> c" "c \<le> d" "d \<le> 1"
  shows "peval (antiderivative q) c \<le> peval (antiderivative q) d"
proof (rule DERIV_nonneg_imp_nondecreasing[OF that(2)])
  fix x :: real
  assume "c \<le> x" "x \<le> d"
  then have "- 1 \<le> x" "x \<le> 1" using that by simp_all
  then have "0 \<le> peval q x" by (rule nonneg)
  then show "\<exists>y. ((\<lambda>x. peval (antiderivative q) x) has_real_derivative y) (at x) \<and> 0 \<le> y"
    using antiderivative_has_derivative[of q x] by blast
qed

lemma integral_pos:
  assumes nonneg: "\<And>x. - 1 \<le> x \<Longrightarrow> x \<le> 1 \<Longrightarrow> 0 \<le> peval q x"
    and fin: "finite {x. peval q x = 0}"
  shows "0 < closed_form_integral q (- 1) 1"
proof (rule ccontr)
  let ?F = "\<lambda>x. peval (antiderivative q) x"
  assume "\<not> 0 < closed_form_integral q (- 1) 1"
  then have le: "?F 1 \<le> ?F (- 1)" by (simp add: closed_form_integral_def)
  have const: "?F x = ?F (- 1)" if "- 1 \<le> x" "x \<le> 1" for x
  proof -
    have "?F (- 1) \<le> ?F x" using integral_nonneg[OF nonneg, of "- 1" x] that by simp
    moreover have "?F x \<le> ?F 1" using integral_nonneg[OF nonneg, of x 1] that by simp
    ultimately show ?thesis using le by simp
  qed
  have zero: "peval q x = 0" if "x \<in> {- 1<..<1}" for x
  proof -
    have "((\<lambda>x. ?F (- 1)) has_real_derivative 0) (at x)" by simp
    then have "(?F has_real_derivative 0) (at x)"
    proof (rule has_field_derivative_transform_within_open)
      show "open {- 1<..<1::real}" by simp
      show "x \<in> {- 1<..<1}" by (rule that)
      show "?F (- 1) = ?F y" if "y \<in> {- 1<..<1}" for y
        using const[of y] that by simp
    qed
    then show ?thesis
      using antiderivative_has_derivative[of q x] by (rule DERIV_unique[symmetric])
  qed
  then have "{- 1<..<1::real} \<subseteq> {x. peval q x = 0}" by blast
  then have "finite {- 1<..<1::real}" using fin by (rule finite_subset)
  moreover have "infinite {- 1<..<1::real}" by (rule infinite_Ioo) simp
  ultimately show False by blast
qed

lemma integral_reflect:
  assumes "\<And>x. peval p' x = peval p (- x)"
  shows "closed_form_integral p' (- 1) 1 = closed_form_integral p (- 1) 1"
proof -
  let ?H = "\<lambda>x. peval (antiderivative p') x + peval (antiderivative p) (- x)"
  have "(?H has_real_derivative 0) (at x)" for x
  proof -
    have "((\<lambda>x. peval (antiderivative p) (- x)) has_real_derivative (peval p (- x) * (- 1))) (at x)"
      by (rule DERIV_chain2[OF antiderivative_has_derivative]) (auto intro!: derivative_eq_intros)
    then have "(?H has_real_derivative (peval p' x + peval p (- x) * (- 1))) (at x)"
      by (rule DERIV_add[OF antiderivative_has_derivative])
    then show ?thesis by (simp add: assms)
  qed
  then have "?H 1 = ?H (- 1)" by (intro DERIV_isconst_all) blast
  then show ?thesis by (simp add: closed_form_integral_def)
qed

subsection \<open>An exact rule tested on products of linear factors\<close>

lemma peval_times_linear_carry:
  "peval (times_linear_carry a b carry p) x = carry + (a + b * x) * peval p x"
  by (induction p arbitrary: carry) (simp_all add: algebra_simps)

lemma peval_times_linear: "peval (times_linear a b p) x = (a + b * x) * peval p x"
  by (simp add: times_linear_def peval_times_linear_carry)

lemma length_times_linear_carry: "length (times_linear_carry a b carry p) = Suc (length p)"
  by (induction p arbitrary: carry) simp_all

lemma length_times_linear: "length (times_linear a b p) = Suc (length p)"
  by (simp add: times_linear_def length_times_linear_carry)

lemma peval_linear_product:
  "peval (linear_product fs) x = (\<Prod>f\<leftarrow>fs. fst f + snd f * x)"
  by (induction fs) (simp_all add: peval_times_linear)

lemma length_linear_product: "length (linear_product fs) = Suc (length fs)"
  by (induction fs) (simp_all add: length_times_linear)

lemma peval_linear_product_reflect:
  "peval (linear_product (map (\<lambda>f. (fst f, - snd f)) fs)) x = peval (linear_product fs) (- x)"
  by (simp add: peval_linear_product o_def)

lemma length_others: "j < length l \<Longrightarrow> length (others j l) = length l - 1"
  by (auto simp: others_def)

lemma nth_in_others:
  assumes "i < length l" "j < length l" "i \<noteq> j"
  shows "l ! i \<in> set (others j l)"
proof (cases "i < j")
  case True
  then have "l ! i = take j l ! i" by simp
  moreover have "i < length (take j l)" using True assms(2) by simp
  ultimately have "l ! i \<in> set (take j l)" by (metis nth_mem)
  then show ?thesis by (simp add: others_def)
next
  case False
  then have "Suc j \<le> i" using assms(3) by simp
  then have "l ! i = drop (Suc j) l ! (i - Suc j)" using assms(1) by simp
  moreover have "i - Suc j < length (drop (Suc j) l)" using \<open>Suc j \<le> i\<close> assms(1) by simp
  ultimately have "l ! i \<in> set (drop (Suc j) l)" by (metis nth_mem)
  then show ?thesis by (simp add: others_def)
qed

lemma nth_not_in_others:
  assumes "distinct l" "j < length l"
  shows "l ! j \<notin> set (others j l)"
proof -
  have "l = take j l @ l ! j # drop (Suc j) l" using assms(2) by (rule id_take_nth_drop)
  then have "distinct (take j l @ l ! j # drop (Suc j) l)" using assms(1) by simp
  then show ?thesis by (auto simp: others_def)
qed

lemma set_others_subset: "set (others j l) \<subseteq> set l"
  by (auto simp: others_def dest: in_set_takeD in_set_dropD)

lemma sum_single_index:
  fixes g :: "nat \<Rightarrow> real"
  assumes "j < n" "\<And>i. i < n \<Longrightarrow> i \<noteq> j \<Longrightarrow> g i = 0"
  shows "(\<Sum>i<n. g i) = g j"
proof -
  have "(\<Sum>i<n. g i) = g j + (\<Sum>i\<in>{..<n} - {j}. g i)"
    using assms(1) by (intro sum.remove) simp_all
  also have "(\<Sum>i\<in>{..<n} - {j}. g i) = 0"
    by (rule sum.neutral) (use assms(2) in auto)
  finally show ?thesis by simp
qed

lemma node_value:
  assumes ex: "gauss_exact n l wt" and d: "distinct l" and j: "j < n" and gs: "length gs \<le> n"
  shows "wt ! j * ((\<Prod>f\<leftarrow>gs. fst f + snd f * l ! j) * (\<Prod>r\<leftarrow>others j l. l ! j - r))
           = closed_form_integral (linear_product (gs @ map (\<lambda>r. (- r, 1)) (others j l))) (- 1) 1"
proof -
  let ?Q = "linear_product (gs @ map (\<lambda>r. (- r, 1)) (others j l))"
  have n: "length l = n" using ex by (simp add: gauss_exact_def)
  have ev: "peval ?Q x = (\<Prod>f\<leftarrow>gs. fst f + snd f * x) * (\<Prod>r\<leftarrow>others j l. x - r)" for x
    by (simp add: peval_linear_product o_def)
  have "length ?Q \<le> 2 * n"
    using gs j n by (simp add: length_linear_product length_others)
  then have "(\<Sum>i<n. wt ! i * peval ?Q (l ! i)) = closed_form_integral ?Q (- 1) 1"
    by (rule exact_on_polynomials[OF ex])
  moreover have "(\<Sum>i<n. wt ! i * peval ?Q (l ! i)) = wt ! j * peval ?Q (l ! j)"
  proof (rule sum_single_index[OF j])
    fix i assume i: "i < n" "i \<noteq> j"
    then have "l ! i \<in> set (others j l)" using nth_in_others[of i l j] j n by simp
    then have "(\<Prod>r\<leftarrow>others j l. l ! i - r) = 0"
      by (auto simp: prod_list_zero_iff)
    then show "wt ! i * peval ?Q (l ! i) = 0" by (simp add: ev)
  qed
  ultimately show ?thesis by (simp add: ev)
qed

lemma others_product_nonzero:
  assumes "distinct l" "j < length l"
  shows "(\<Prod>r\<leftarrow>others j l. l ! j - r) \<noteq> 0"
  using nth_not_in_others[OF assms] by (auto simp: prod_list_zero_iff)

lemma root_factors:
  fixes x :: real
  shows "(\<Prod>f\<leftarrow>map (\<lambda>r. (- r, 1)) rs. fst f + snd f * x) = (\<Prod>r\<leftarrow>rs. x - r)"
proof -
  have "(\<lambda>f. fst f + snd f * x) \<circ> (\<lambda>r. (- r, 1)) = (\<lambda>r. x - r)" by (rule ext) simp
  then show ?thesis by simp
qed

lemma finite_zeros_of_product: "finite {x::real. (\<Prod>r\<leftarrow>rs. x - r) = 0}"
proof -
  have "{x. (\<Prod>r\<leftarrow>rs. x - r) = 0} \<subseteq> set rs"
    by (auto simp: prod_list_zero_iff)
  then show ?thesis by (rule finite_subset) simp
qed

lemma square_integral_pos:
  fixes u :: real
  assumes side: "\<And>x. - 1 \<le> x \<Longrightarrow> x \<le> 1 \<Longrightarrow> 0 \<le> u + v * x" and v: "v \<noteq> 0 \<or> u \<noteq> 0"
  shows "0 < closed_form_integral
               (linear_product ((u, v) # map (\<lambda>r. (- r, 1)) rs @ map (\<lambda>r. (- r, 1)) rs)) (- 1) 1"
proof (rule integral_pos)
  let ?Q = "linear_product ((u, v) # map (\<lambda>r. (- r, 1)) rs @ map (\<lambda>r. (- r, 1)) rs)"
  have ev: "peval ?Q x = (u + v * x) * ((\<Prod>r\<leftarrow>rs. x - r) * (\<Prod>r\<leftarrow>rs. x - r))" for x
    unfolding peval_linear_product list.map map_append prod_list.Cons prod_list.append root_factors
    by simp
  show "0 \<le> peval ?Q x" if "- 1 \<le> x" "x \<le> 1" for x
    unfolding ev using side[OF that] by (intro mult_nonneg_nonneg zero_le_square)
  have "{x. peval ?Q x = 0} \<subseteq> {x. u + v * x = 0} \<union> {x. (\<Prod>r\<leftarrow>rs. x - r) = 0}"
    unfolding ev by auto
  moreover have "finite {x. u + v * x = 0}"
  proof (cases "v = 0")
    case True
    then have "{x. u + v * x = 0} = {}" using v by simp
    then show ?thesis by simp
  next
    case False
    then have "{x. u + v * x = 0} \<subseteq> {- u / v}" by (auto simp: field_simps)
    then show ?thesis by (rule finite_subset) simp
  qed
  ultimately show "finite {x. peval ?Q x = 0}"
    using finite_zeros_of_product[of rs] by (meson finite_UnI finite_subset)
qed

lemma weighted_side_positive:
  assumes ex: "gauss_exact n l wt" and d: "distinct l" and j: "j < n"
    and side: "\<And>x. - 1 \<le> x \<Longrightarrow> x \<le> 1 \<Longrightarrow> 0 \<le> u + v * x" and v: "v \<noteq> 0 \<or> u \<noteq> 0"
    and room: "u = 1 \<and> v = 0 \<or> 0 < n"
  shows "0 < wt ! j * (u + v * l ! j)"
proof -
  let ?D = "\<Prod>r\<leftarrow>others j l. l ! j - r"
  have n: "length l = n" using ex by (simp add: gauss_exact_def)
  have D: "?D \<noteq> 0" using others_product_nonzero[OF d, of j] j n by simp
  have "length ((u, v) # map (\<lambda>r. (- r, 1)) (others j l)) \<le> n"
    using j n by (simp add: length_others)
  from node_value[OF ex d j this]
  have "wt ! j * ((u + v * l ! j) * ?D * ?D)
          = closed_form_integral
              (linear_product ((u, v) # map (\<lambda>r. (- r, 1)) (others j l)
                 @ map (\<lambda>r. (- r, 1)) (others j l))) (- 1) 1"
    by (simp add: o_def mult.assoc)
  also have "0 < \<dots>" by (rule square_integral_pos[OF side v])
  finally have "0 < (wt ! j * (u + v * l ! j)) * (?D * ?D)" by (simp add: mult.assoc)
  moreover have "0 < ?D * ?D" using D by (metis not_real_square_gt_zero)
  ultimately show ?thesis by (simp add: zero_less_mult_iff)
qed

lemma weight_positive:
  assumes "gauss_exact n l wt" "distinct l" "j < n"
  shows "0 < wt ! j"
  using weighted_side_positive[OF assms, of 1 0] by simp

lemma node_inside:
  assumes "gauss_exact n l wt" "distinct l" "j < n"
  shows "- 1 < l ! j" "l ! j < 1"
proof -
  have w: "0 < wt ! j" by (rule weight_positive[OF assms])
  have "0 < wt ! j * (1 + 1 * l ! j)"
    by (rule weighted_side_positive[OF assms]) (use assms(3) in simp_all)
  then show "- 1 < l ! j" using w by (simp add: zero_less_mult_iff)
  have "0 < wt ! j * (1 + (- 1) * l ! j)"
    by (rule weighted_side_positive[OF assms]) (use assms(3) in simp_all)
  then show "l ! j < 1" using w by (simp add: zero_less_mult_iff)
qed

lemma node_mirror:
  assumes ex: "gauss_exact n l wt" and d: "distinct l" and j: "j < n"
  shows "- (l ! j) \<in> set l"
proof -
  let ?fs = "map (\<lambda>r. (r, 1)) l @ map (\<lambda>r. (- r, 1)) (others j l)"
  let ?Q = "linear_product ?fs"
  let ?R = "linear_product (map (\<lambda>f. (fst f, - snd f)) ?fs)"
  let ?G = "\<lambda>x. \<Prod>r\<leftarrow>l. r + x"
  let ?D = "\<Prod>r\<leftarrow>others j l. l ! j - r"
  have n: "length l = n" using ex by (simp add: gauss_exact_def)
  have D: "?D \<noteq> 0" using others_product_nonzero[OF d, of j] j n by simp
  have w: "wt ! j \<noteq> 0" using weight_positive[OF ex d j] by simp
  have evQ: "peval ?Q x = ?G x * (\<Prod>r\<leftarrow>others j l. x - r)" for x
    by (simp add: peval_linear_product o_def)
  have evR: "peval ?R x = peval ?Q (- x)" for x
    by (rule peval_linear_product_reflect)
  have "length ?R \<le> 2 * n"
    using j n by (simp add: length_linear_product length_others)
  then have "(\<Sum>i<n. wt ! i * peval ?R (l ! i)) = closed_form_integral ?R (- 1) 1"
    by (rule exact_on_polynomials[OF ex])
  moreover have "(\<Sum>i<n. wt ! i * peval ?R (l ! i)) = 0"
  proof (rule sum.neutral, rule ballI)
    fix i assume "i \<in> {..<n}"
    then have "l ! i \<in> set l" using n by simp
    then have "?G (- (l ! i)) = 0" by (auto simp: prod_list_zero_iff intro!: image_eqI[of _ _ "l ! i"])
    then have "peval ?R (l ! i) = 0" unfolding evR evQ by simp
    then show "wt ! i * peval ?R (l ! i) = 0" by simp
  qed
  moreover have "closed_form_integral ?R (- 1) 1 = closed_form_integral ?Q (- 1) 1"
    by (rule integral_reflect) (rule evR)
  moreover have "wt ! j * ((\<Prod>f\<leftarrow>map (\<lambda>r. (r, 1)) l. fst f + snd f * l ! j) * ?D)
                   = closed_form_integral ?Q (- 1) 1"
    by (rule node_value[OF ex d j]) (simp add: n)
  ultimately have "wt ! j * (?G (l ! j) * ?D) = 0" by (simp add: o_def)
  then have "?G (l ! j) = 0" using w D by simp
  then obtain r where "r \<in> set l" "r + l ! j = 0" by (auto simp: prod_list_zero_iff)
  then have "r = - (l ! j)" by simp
  with \<open>r \<in> set l\<close> show ?thesis by simp
qed

subsection \<open>The invariants of an exact entry in ascending order\<close>

lemma mirrored_sorted_list:
  fixes l :: "real list"
  assumes s: "sorted_wrt (<) l" and m: "\<And>x. x \<in> set l \<Longrightarrow> - x \<in> set l"
  shows "rev l = map uminus l"
proof -
  let ?m = "map uminus (rev l)"
  have "sorted_wrt (<) ?m"
    using s by (simp add: sorted_wrt_map sorted_wrt_rev)
  moreover have "set ?m = set l"
  proof
    show "set ?m \<subseteq> set l" using m by auto
    show "set l \<subseteq> set ?m"
    proof
      fix x assume "x \<in> set l"
      then have "- x \<in> set l" by (rule m)
      then have "- (- x) \<in> uminus ` set l" by (rule imageI)
      then show "x \<in> set ?m" by simp
    qed
  qed
  ultimately have "?m = l"
    using s by (intro sorted_distinct_set_unique) (simp_all add: strict_sorted_iff)
  then have "map uminus ?m = map uminus l" by simp
  then show ?thesis by (simp add: o_def)
qed

lemma gauss_entry_invariants:
  assumes ex: "gauss_exact n l wt" and s: "sorted_wrt (<) l" and n: "0 < n"
  shows "length l = n" "length wt = n" "sorted l" "rev l = map uminus l"
    "\<forall>x\<in>set l. - 1 < x \<and> x < 1" "\<forall>w\<in>set wt. 0 < w" "sum_list wt = 2"
proof -
  have d: "distinct l" and "sorted l" using s by (simp_all add: strict_sorted_iff)
  show len: "length l = n" "length wt = n" using ex by (simp_all add: gauss_exact_def)
  show "sorted l" by fact
  show "rev l = map uminus l"
  proof (rule mirrored_sorted_list[OF s])
    fix x assume "x \<in> set l"
    then obtain j where "j < n" "x = l ! j" using len(1) by (metis in_set_conv_nth)
    then show "- x \<in> set l" using node_mirror[OF ex d, of j] by simp
  qed
  show "\<forall>x\<in>set l. - 1 < x \<and> x < 1"
  proof
    fix x assume "x \<in> set l"
    then obtain j where "j < n" "x = l ! j" using len(1) by (metis in_set_conv_nth)
    then show "- 1 < x \<and> x < 1" using node_inside[OF ex d, of j] by simp
  qed
  show "\<forall>w\<in>set wt. 0 < w"
  proof
    fix w assume "w \<in> set wt"
    then obtain j where "j < n" "w = wt ! j" using len(2) by (metis in_set_conv_nth)
    then show "0 < w" using weight_positive[OF ex d, of j] by simp
  qed
  have "0 \<in> {0..<2 * n}" using n by simp
  then have "(\<Sum>i<n. wt ! i * l ! i ^ 0) = (1 - (- 1) ^ Suc 0) / real (Suc 0)"
    using ex unfolding gauss_exact_def by blast
  then have "(\<Sum>i<n. wt ! i) = 2" by simp
  moreover have "sum_list wt = (\<Sum>i<n. wt ! i)"
    using len(2) by (simp add: sum_list_sum_nth atLeast0LessThan)
  ultimately show "sum_list wt = 2" by simp
qed








subsection \<open>What a constructed table gives the routines\<close>

text \<open>
  The assumptions that the theorems about the routines make on an entry of the static
  table (its shape, its symmetry, its exactness) all hold for a table as the
  constructor is specified to build it for the orders from 1.
\<close>

lemma set_others:
  assumes "distinct l" "j < length l"
  shows "set (others j l) = set l - {l ! j}"
proof
  show "set (others j l) \<subseteq> set l - {l ! j}"
    using set_others_subset[of j l] nth_not_in_others[OF assms] by auto
  show "set l - {l ! j} \<subseteq> set (others j l)"
  proof
    fix x assume "x \<in> set l - {l ! j}"
    then obtain i where "i < length l" "x = l ! i" "i \<noteq> j"
      by (metis DiffD1 DiffD2 in_set_conv_nth insertI1)
    then show "x \<in> set (others j l)" using nth_in_others[of i l j] assms(2) by simp
  qed
qed

lemma weight_mirror:
  assumes ex: "gauss_exact n l wt" and s: "sorted_wrt (<) l" and j: "j < n"
  shows "wt ! (n - Suc j) = wt ! j"
proof -
  let ?fs = "map (\<lambda>r. (- r, 1)) (others j l)"
  let ?Q = "linear_product ?fs"
  let ?R = "linear_product (map (\<lambda>f. (fst f, - snd f)) ?fs)"
  let ?D = "\<Prod>r\<leftarrow>others j l. l ! j - r"
  let ?j' = "n - Suc j"
  have d: "distinct l" using s by (simp add: strict_sorted_iff)
  have n: "length l = n" using ex by (simp add: gauss_exact_def)
  have pos: "0 < n" using j by simp
  have sym: "rev l = map uminus l" using gauss_entry_invariants(4)[OF ex s pos] .
  have j': "?j' < n" using j by simp
  have mirror: "l ! (n - Suc i) = - (l ! i)" if "i < n" for i
  proof -
    have "l ! (n - Suc i) = rev l ! i" using that n by (simp add: rev_nth)
    also have "\<dots> = - (l ! i)" using that n by (simp add: sym)
    finally show ?thesis .
  qed
  have D: "?D \<noteq> 0" using others_product_nonzero[OF d, of j] j n by simp
  have evQ: "peval ?Q x = (\<Prod>r\<leftarrow>others j l. x - r)" for x
    unfolding peval_linear_product root_factors ..
  have evR: "peval ?R x = peval ?Q (- x)" for x
    by (rule peval_linear_product_reflect)
  have lenR: "length ?R \<le> 2 * n"
    using j n by (simp add: length_linear_product length_others)
  have "(\<Sum>i<n. wt ! i * peval ?R (l ! i)) = closed_form_integral ?R (- 1) 1"
    using lenR by (rule exact_on_polynomials[OF ex])
  moreover have "(\<Sum>i<n. wt ! i * peval ?R (l ! i)) = wt ! ?j' * peval ?R (l ! ?j')"
  proof (rule sum_single_index[OF j'])
    fix i assume i: "i < n" "i \<noteq> ?j'"
    have "- (l ! i) \<in> set l" using node_mirror[OF ex d i(1)] .
    moreover have "- (l ! i) \<noteq> l ! j"
    proof
      assume "- (l ! i) = l ! j"
      then have "l ! i = l ! ?j'" using mirror[OF j] by simp
      then have "i = ?j'" using d i(1) j' n by (simp add: nth_eq_iff_index_eq)
      with i(2) show False by simp
    qed
    ultimately have "- (l ! i) \<in> set (others j l)"
      using set_others[OF d, of j] j n by simp
    then have "peval ?Q (- (l ! i)) = 0" unfolding evQ by (auto simp: prod_list_zero_iff)
    then have "peval ?R (l ! i) = 0" unfolding evR .
    then show "wt ! i * peval ?R (l ! i) = 0" by simp
  qed
  moreover have "peval ?R (l ! ?j') = ?D"
    unfolding evR mirror[OF j] by (simp add: evQ)
  moreover have "closed_form_integral ?R (- 1) 1 = closed_form_integral ?Q (- 1) 1"
    by (rule integral_reflect) (rule evR)
  moreover have "wt ! j * ((\<Prod>f\<leftarrow>[]. fst f + snd f * l ! j) * ?D)
                   = closed_form_integral (linear_product ([] @ ?fs)) (- 1) 1"
    by (rule node_value[OF ex d j]) simp
  ultimately have "wt ! ?j' * ?D = wt ! j * ?D" by simp
  then show ?thesis using D by simp
qed

lemma exact_entry_symmetric:
  assumes ex: "gauss_exact n l wt" and s: "sorted_wrt (<) l" and pos: "0 < n"
  shows "symmetric_rule l wt"
proof -
  have len: "length l = n" "length wt = n" using ex by (simp_all add: gauss_exact_def)
  have "rev wt = wt"
  proof (rule nth_equalityI)
    show "length (rev wt) = length wt" by simp
    fix i assume "i < length (rev wt)"
    then have i: "i < n" using len(2) by simp
    then have "rev wt ! i = wt ! (n - Suc i)" using len(2) by (simp add: rev_nth)
    then show "rev wt ! i = wt ! i" using weight_mirror[OF ex s i] by simp
  qed
  then show ?thesis
    using len gauss_entry_invariants(4)[OF ex s pos] by (simp add: symmetric_rule_def)
qed

lemma constructed_tables_shape:
  assumes "constructed_tables 1 N st"
  shows "table_shape st"
proof -
  have l: "length (Lroots st) = N" "length (Weight st) = length (Lroots st)"
    using assms by (simp_all add: constructed_tables_def)
  have "length (Lroots st ! k) = Suc k \<and> length (Weight st ! k) = Suc k"
    if "k \<in> {0..<length (Lroots st)}" for k
  proof -
    have "Suc k \<in> {1..N}" using that l(1) by simp
    then have "gauss_exact (Suc k) (Lroots st ! (Suc k - 1)) (Weight st ! (Suc k - 1))"
      using assms unfolding constructed_tables_def by blast
    then show ?thesis by (simp add: gauss_exact_def)
  qed
  then show ?thesis using l(2) by (simp add: table_shape_def)
qed

lemma constructed_tables_entry:
  assumes c: "constructed_tables 1 N st"
    and o: "1 \<le> sint (order::32 word)" "sint order \<le> int (length (Lroots st))"
  shows "gauss_exact (nat (sint order)) (Lroots st ! (nat (sint order) - 1))
           (Weight st ! (nat (sint order) - 1))"
    and "symmetric_rule (Lroots st ! (nat (sint order) - 1)) (Weight st ! (nat (sint order) - 1))"
proof -
  have "length (Lroots st) = N" using c by (simp add: constructed_tables_def)
  then have "nat (sint order) \<in> {1..N}" using o by auto
  then have ex: "gauss_exact (nat (sint order)) (Lroots st ! (nat (sint order) - 1))
                   (Weight st ! (nat (sint order) - 1))"
    and s: "sorted_wrt (<) (Lroots st ! (nat (sint order) - 1))"
    using c unfolding constructed_tables_def by blast+
  show "gauss_exact (nat (sint order)) (Lroots st ! (nat (sint order) - 1))
           (Weight st ! (nat (sint order) - 1))" by (rule ex)
  show "symmetric_rule (Lroots st ! (nat (sint order) - 1)) (Weight st ! (nat (sint order) - 1))"
    by (rule exact_entry_symmetric[OF ex s]) (use o(1) in simp)
qed

section \<open>The claims\<close>

text \<open>
  C1. For every order \<open>n\<close> in the range of the static table whose entry is an exact
  Gauss-Legendre rule, every interval \<open>[a, b]\<close> and every polynomial integrand \<open>p\<close> of
  degree at most \<open>2n - 1\<close> (at most \<open>2n\<close> coefficients), \<open>Integrate1D\<close> with order \<open>n\<close>
  returns the closed-form integral of \<open>p\<close> over \<open>[a, b]\<close>, exactly over the reals.
\<close>

theorem Integrate1D_exact_for_polynomials:
  assumes "1 \<le> sint order" "sint order \<le> int (length (Lroots st))"
    and "length (Weight st) = length (Lroots st)"
    and "gauss_exact (nat (sint order)) (Lroots st ! (nat (sint order) - 1))
           (Weight st ! (nat (sint order) - 1))"
    and "length p \<le> 2 * nat (sint order)"
  shows "fst (Integrate1D mk st w result (peval p) a b order) = Inr (closed_form_integral p a b)"
proof -
  let ?l = "Lroots st ! (nat (sint order) - 1)" and ?wt = "Weight st ! (nat (sint order) - 1)"
  let ?n = "nat (sint order)"
  have len: "length ?l = ?n" "length ?wt = ?n"
    using assms(4) by (simp_all add: gauss_exact_def)
  then have le: "length ?l \<le> length ?wt" by simp
  have ab: "(b + a) / 2 - (b - a) / 2 = a" "(b + a) / 2 + (b - a) / 2 = b"
    by (simp_all add: field_simps)
  have "fst (Integrate1D mk st w result (peval p) a b order)
          = sum1D result (peval p) a b ?l ?wt"
    unfolding fst_Integrate1D choose_tables_static[OF assms(1-3)] by simp
  also have "\<dots> = Inr ((b - a) / 2
                  * (\<Sum>i<?n. ?wt ! i * peval p ((b - a) / 2 * ?l ! i + (b + a) / 2)))"
    unfolding sum1D_in_range[OF le] sum_list_upt len by simp
  also have "\<dots> = Inr (closed_form_integral p a b)"
    using gauss_moment_polynomial[OF assms(4,5), of "(b - a) / 2" "(b + a) / 2"]
    unfolding ab by simp
  finally show ?thesis .
qed

theorem Integrate1D_exact_for_polynomials_witness:
  "fst (Integrate1D mk_two_point gl_1_to_3 world0 0 (peval [1, 2, 3, 4, 5, 6]) 0 1 3) = Inr 6"
proof -
  have s: "sint (3::32 word) = 3" by simp
  have "fst (Integrate1D mk_two_point gl_1_to_3 world0 0 (peval [1, 2, 3, 4, 5, 6]) 0 1 3)
          = Inr (closed_form_integral [1, 2, 3, 4, 5, 6] 0 1)"
    by (rule Integrate1D_exact_for_polynomials)
      (simp_all add: s gauss_exact_order_3[simplified], simp_all add: gl_1_to_3_def)
  also have "closed_form_integral [1, 2, 3, 4, 5, 6] 0 1 = 6"
    by (simp add: closed_form_integral_def antiderivative_def)
  finally show ?thesis .
qed

text \<open>
  C2. For an order greater than the largest order of the static table, \<open>Integrate1D\<close>
  returns a value and raises nothing: it builds the table \<open>mk order order\<close> for exactly
  that order, returns the weighted sum over that table's single entry scaled by the
  half-width, and gives the table back before it returns (the count of allocated tables
  is what it was). The private table is assumed to be a single-order table: one entry,
  with as many weights as roots.
\<close>

theorem Integrate1D_beyond_static_range:
  fixes f :: "real \<Rightarrow> 'a::real_vector"
  assumes "int (length (Lroots st)) < sint order"
    and "Lroots (mk order order) = [lroots]" "Weight (mk order order) = [weight]"
    and "length weight = length lroots"
  shows "Integrate1D mk st w result f a b order =
    (Inr (((b - a) / 2) *\<^sub>R
       (\<Sum>i<length lroots. (weight ! i) *\<^sub>R f ((b - a) / 2 * lroots ! i + (b + a) / 2))),
     w\<lparr>printed := printed w @ [mk order order]\<rparr>)"
  using assms Integrate1D_private[OF private_branch_large[OF assms(1)], of mk w result f a b]
  by (simp add: sum_list_upt)

theorem Integrate1D_beyond_static_range_witness:
  "Integrate1D mk_two_point gl_1_to_3 world0 (5::real) (\<lambda>x. 3 * x * x) 0 2 11 =
     (Inr 8, \<lparr>printed = [mk_two_point 11 11], allocated = 0\<rparr>)"
  using Integrate1D_beyond_static_range[of gl_1_to_3 11 mk_two_point
      "[- sqrt (1 / 3), sqrt (1 / 3)]" "[1, 1]" world0 5 "\<lambda>x. 3 * x * x" 0 2]
  by (simp add: gl_1_to_3_def mk_two_point_def world0_def lessThan_Suc numeral_2_eq_2
      algebra_simps)

text \<open>
  C3, as the code does it, for \<open>T = double\<close>. With a finite incoming value of the result
  parameter, what \<open>Integrate1D\<close>, \<open>Integrate2D\<close> and \<open>Integrate3D\<close> return does not
  depend on that value. For an order that passes the test
  \<open>(unsigned int)order <= Lroots.size()\<close> the call leaves the world as it was, whatever
  the incoming value. For an order that fails the test the call is not free of effects:
  it writes the private table to the log with \<open>PrintTables\<close>.
\<close>

theorem Integrate_result_and_effects:
  fixes f :: "real \<Rightarrow> double" and g :: "real \<Rightarrow> real \<Rightarrow> double"
    and h :: "real \<Rightarrow> real \<Rightarrow> real \<Rightarrow> double"
  shows
  "Integrate1D mk st w (Finite ra) f a b order = Integrate1D mk st w (Finite rb) f a b order \<and>
   Integrate2D mk st w (Finite ra) g Xa Xb Ya Yb order
     = Integrate2D mk st w (Finite rb) g Xa Xb Ya Yb order \<and>
   Integrate3D mk st w (Finite ra) h Xa Xb Ya Yb Za Zb order
     = Integrate3D mk st w (Finite rb) h Xa Xb Ya Yb Za Zb order \<and>
   (unat order \<le> length (Lroots st) \<longrightarrow>
      snd (Integrate1D mk st w result f a b order) = w \<and>
      snd (Integrate2D mk st w result g Xa Xb Ya Yb order) = w \<and>
      snd (Integrate3D mk st w result h Xa Xb Ya Yb Za Zb order) = w) \<and>
   (\<not> unat order' \<le> length (Lroots st) \<longrightarrow>
      printed (snd (Integrate1D mk st w result f a b order')) = printed w @ [mk order' order'] \<and>
      printed (snd (Integrate2D mk st w result g Xa Xb Ya Yb order'))
        = printed w @ [mk order' order'] \<and>
      printed (snd (Integrate3D mk st w result h Xa Xb Ya Yb Za Zb order'))
        = printed w @ [mk order' order'])"
proof -
  have "Integrate1D mk st w (Finite ra) f a b order = Integrate1D mk st w (Finite rb) f a b order"
    by (rule Integrate1D_Finite_result)
  moreover
  have "Integrate2D mk st w (Finite ra) g Xa Xb Ya Yb order
          = Integrate2D mk st w (Finite rb) g Xa Xb Ya Yb order"
    by (rule Integrate2D_Finite_result)
  moreover
  have "Integrate3D mk st w (Finite ra) h Xa Xb Ya Yb Za Zb order
          = Integrate3D mk st w (Finite rb) h Xa Xb Ya Yb Za Zb order"
    by (rule Integrate3D_Finite_result)
  ultimately show ?thesis
    by (simp add: Integrate1D_static_world Integrate2D_static_world Integrate3D_static_world
        Integrate1D_private_printed Integrate2D_private_printed Integrate3D_private_printed)
qed

theorem Integrate_result_and_effects_witness:
  "Integrate1D mk_two_point gl_1_to_3 world0 (Finite 1) (\<lambda>x. Finite x) 0 1 2
     = Integrate1D mk_two_point gl_1_to_3 world0 (Finite 99) (\<lambda>x. Finite x) 0 1 2 \<and>
   snd (Integrate1D mk_two_point gl_1_to_3 world0 (Finite 1) (\<lambda>x. Finite x) 0 1 2) = world0 \<and>
   snd (Integrate2D mk_two_point gl_1_to_3 world0 (Finite 1) (\<lambda>x y. Finite (x * y)) 0 1 0 1 2)
     = world0 \<and>
   snd (Integrate3D mk_two_point gl_1_to_3 world0 (Finite 1) (\<lambda>x y z. Finite (x * y * z))
          0 1 0 1 0 1 2)
     = world0 \<and>
   printed (snd (Integrate1D mk_two_point gl_1_to_3 world0 (Finite 1) (\<lambda>x. Finite x) 0 1 11))
     = [mk_two_point 11 11]"
proof -
  have s: "unat (2::32 word) \<le> length (Lroots gl_1_to_3)" by (simp add: gl_1_to_3_def)
  have p: "\<not> unat (11::32 word) \<le> length (Lroots gl_1_to_3)" by (simp add: gl_1_to_3_def)
  have e: "printed world0 = []" by (simp add: world0_def)
  show ?thesis
    using s p
      Integrate_result_and_effects[where mk = mk_two_point and st = gl_1_to_3 and w = world0
        and ra = 1 and rb = 99 and result = "Finite 1" and f = "\<lambda>x. Finite x"
        and a = 0 and b = 1 and order = 2 and order' = 11
        and g = "\<lambda>x y. Finite (x * y)" and Xa = 0 and Xb = 1 and Ya = 0 and Yb = 1
        and h = "\<lambda>x y z. Finite (x * y * z)" and Za = 0 and Zb = 1, unfolded e append_Nil]
    by blast
qed

text \<open>
  With the three-order table and \<open>order = 11\<close> the world after the call differs from the
  world before it.
\<close>

theorem Integrate1D_prints_counterexample:
  "snd (Integrate1D mk_two_point gl_1_to_3 world0 (0::real) (\<lambda>x. x) 0 1 11) \<noteq> world0"
proof -
  have "\<not> unat (11::32 word) \<le> length (Lroots gl_1_to_3)" by (simp add: gl_1_to_3_def)
  then have "printed (snd (Integrate1D mk_two_point gl_1_to_3 world0 (0::real) (\<lambda>x. x) 0 1 11))
               = printed world0 @ [mk_two_point 11 11]"
    by (rule Integrate1D_private_printed)
  then show ?thesis by (auto simp: world0_def)
qed





text \<open>
  C6, as the code does it. With a static table of the specified shape, every element
  access of the three routines is inside its vector for \<open>1 \<le> order \<le> Lroots.size()\<close>.
  No order is rejected. For \<open>order = 0\<close> the first branch is taken and the access at
  index \<open>order - 1\<close> is outside the vector. For a negative order the unsigned comparison
  fails, so the second branch is taken: the routines read entry 0 of the private table
  \<open>mk order order\<close> and never index the static table at \<open>order - 1\<close>.
\<close>

theorem table_accesses:
  "(table_shape st \<and> 1 \<le> sint order \<and> sint order \<le> int (length (Lroots st)) \<longrightarrow>
      (\<exists>r. fst (Integrate1D mk st w result f a b order) = Inr r) \<and>
      (\<exists>r. fst (Integrate2D mk st w result g Xa Xb Ya Yb order) = Inr r) \<and>
      (\<exists>r. fst (Integrate3D mk st w result h Xa Xb Ya Yb Za Zb order) = Inr r)) \<and>
   (length (Lroots st) < 2 ^ 64 \<longrightarrow>
      fst (Integrate1D mk st w result f a b 0) = Inl UndefinedBehaviour \<and>
      fst (Integrate2D mk st w result g Xa Xb Ya Yb 0) = Inl UndefinedBehaviour \<and>
      fst (Integrate3D mk st w result h Xa Xb Ya Yb Za Zb 0) = Inl UndefinedBehaviour) \<and>
   (sint order' < 0 \<and> length (Lroots st) < 2 ^ 31 \<longrightarrow>
      fst (Integrate1D mk st w result f a b order') =
        (case private_entry (mk order' order') of
           Inl e \<Rightarrow> Inl e
         | Inr (lroots, weight) \<Rightarrow> sum1D result f a b lroots weight) \<and>
      fst (Integrate2D mk st w result g Xa Xb Ya Yb order') =
        (case private_entry (mk order' order') of
           Inl e \<Rightarrow> Inl e
         | Inr (lroots, weight) \<Rightarrow> sum2D result g Xa Xb Ya Yb lroots weight) \<and>
      fst (Integrate3D mk st w result h Xa Xb Ya Yb Za Zb order') =
        (case private_entry (mk order' order') of
           Inl e \<Rightarrow> Inl e
         | Inr (lroots, weight) \<Rightarrow> sum3D result h Xa Xb Ya Yb Za Zb lroots weight))"
proof (intro conjI impI)
  assume "table_shape st \<and> 1 \<le> sint order \<and> sint order \<le> int (length (Lroots st))"
  then have a: "1 \<le> sint order" "sint order \<le> int (length (Lroots st))" "table_shape st"
    by simp_all
  show "\<exists>r. fst (Integrate1D mk st w result f a b order) = Inr r"
    by (rule Integrate_static_no_error(1)[OF a])
  show "\<exists>r. fst (Integrate2D mk st w result g Xa Xb Ya Yb order) = Inr r"
    by (rule Integrate_static_no_error(2)[OF a])
  show "\<exists>r. fst (Integrate3D mk st w result h Xa Xb Ya Yb Za Zb order) = Inr r"
    by (rule Integrate_static_no_error(3)[OF a])
next
  assume z: "length (Lroots st) < 2 ^ 64"
  show "fst (Integrate1D mk st w result f a b 0) = Inl UndefinedBehaviour"
    by (rule Integrate_order_zero(1)[OF z])
  show "fst (Integrate2D mk st w result g Xa Xb Ya Yb 0) = Inl UndefinedBehaviour"
    by (rule Integrate_order_zero(2)[OF z])
  show "fst (Integrate3D mk st w result h Xa Xb Ya Yb Za Zb 0) = Inl UndefinedBehaviour"
    by (rule Integrate_order_zero(3)[OF z])
next
  assume "sint order' < 0 \<and> length (Lroots st) < 2 ^ 31"
  then have p: "\<not> unat order' \<le> length (Lroots st)"
    by (simp add: private_branch_negative)
  show "fst (Integrate1D mk st w result f a b order') =
        (case private_entry (mk order' order') of
           Inl e \<Rightarrow> Inl e
         | Inr (lroots, weight) \<Rightarrow> sum1D result f a b lroots weight)"
    by (rule Integrate_private_result(1)[OF p])
  show "fst (Integrate2D mk st w result g Xa Xb Ya Yb order') =
        (case private_entry (mk order' order') of
           Inl e \<Rightarrow> Inl e
         | Inr (lroots, weight) \<Rightarrow> sum2D result g Xa Xb Ya Yb lroots weight)"
    by (rule Integrate_private_result(2)[OF p])
  show "fst (Integrate3D mk st w result h Xa Xb Ya Yb Za Zb order') =
        (case private_entry (mk order' order') of
           Inl e \<Rightarrow> Inl e
         | Inr (lroots, weight) \<Rightarrow> sum3D result h Xa Xb Ya Yb Za Zb lroots weight)"
    by (rule Integrate_private_result(3)[OF p])
qed

theorem table_accesses_witness:
  "(\<exists>r. fst (Integrate1D mk_two_point gl_1_to_3 world0 (0::real) (\<lambda>x. x) 0 1 2) = Inr r) \<and>
   (\<exists>r. fst (Integrate2D mk_two_point gl_1_to_3 world0 (0::real) (\<lambda>x y. x * y) 0 1 0 1 2)
      = Inr r) \<and>
   (\<exists>r. fst (Integrate3D mk_two_point gl_1_to_3 world0 (0::real) (\<lambda>x y z. x * y * z)
           0 1 0 1 0 1 2) = Inr r) \<and>
   fst (Integrate1D mk_two_point gl_1_to_3 world0 (0::real) (\<lambda>x. x) 0 1 0)
     = Inl UndefinedBehaviour \<and>
   fst (Integrate1D mk_two_point gl_1_to_3 world0 (0::real) (\<lambda>x. x) 0 1 (- 1)) =
     (case private_entry (mk_two_point (- 1) (- 1)) of
        Inl e \<Rightarrow> Inl e
      | Inr (lroots, weight) \<Rightarrow> sum1D 0 (\<lambda>x. x) 0 1 lroots weight)"
proof -
  have a: "table_shape gl_1_to_3 \<and> 1 \<le> sint (2::32 word) \<and>
           sint (2::32 word) \<le> int (length (Lroots gl_1_to_3))"
    using table_shape_gl_1_to_3 by (simp add: gl_1_to_3_def)
  have z: "length (Lroots gl_1_to_3) < 2 ^ 64" by (simp add: gl_1_to_3_def)
  have n: "sint (- 1 :: 32 word) < 0 \<and> length (Lroots gl_1_to_3) < 2 ^ 31"
    by (simp add: gl_1_to_3_def)
  show ?thesis
    using a z n
      table_accesses[where st = gl_1_to_3 and order = 2 and order' = "- 1"
        and mk = mk_two_point and w = world0 and result = "0::real" and f = "\<lambda>x. x"
        and a = 0 and b = 1 and g = "\<lambda>x y. x * y" and Xa = 0 and Xb = 1 and Ya = 0 and Yb = 1
        and h = "\<lambda>x y z. x * y * z" and Za = 0 and Zb = 1]
    by blast
qed

text \<open>
  With \<open>order = -1\<close> and a constructor that returns a one-entry table, \<open>Integrate1D\<close>
  returns a value: no access outside a vector takes place.
\<close>

theorem negative_order_counterexample:
  "fst (Integrate1D mk_two_point gl_1_to_3 world0 (0::real) (\<lambda>x. 1) 0 2 (- 1)) = Inr 2"
proof -
  have "\<not> unat (- 1 :: 32 word) \<le> length (Lroots gl_1_to_3)"
    by (rule private_branch_negative) (simp_all add: gl_1_to_3_def)
  then have "fst (Integrate1D mk_two_point gl_1_to_3 world0 (0::real) (\<lambda>x. 1) 0 2 (- 1)) =
      (case private_entry (mk_two_point (- 1) (- 1)) of
         Inl e \<Rightarrow> Inl e
       | Inr (lroots, weight) \<Rightarrow> sum1D 0 (\<lambda>x. 1) 0 2 lroots weight)"
    by (rule Integrate_private_result(1))
  also have "\<dots> = Inr 2"
    by (simp add: private_entry_def subscript_0 mk_two_point_def sum1D_in_range)
  finally show ?thesis .
qed




text \<open>
  C9. When \<open>ComputeC\<close> is not overridden, the residual is the zero vector at every imposed
  state \<open>(q, t)\<close>, and \<open>UpdateState\<close> returns without an error: the residual, its time
  derivative and every column of the Jacobian are zero, so the link constrains nothing.
\<close>

theorem default_residual_is_zero:
  assumes "h \<noteq> 0"
  shows "ComputeC_default n q t = Inr (replicate n 0) \<and>
   UpdateState (ComputeC_default n) h q t =
     Inr \<lparr>res_C = replicate n 0, res_Ct = replicate n 0,
          res_Cq = replicate (length q) (replicate n 0)\<rparr>"
  using jacobian_columns_default[of n h q t "[0..<length q]"]
  by (simp add: UpdateState_def ComputeCt_def ComputeCq_def ComputeC_default_def
      difference_quotient_zero)

theorem default_residual_is_zero_witness:
  "UpdateState (ComputeC_default 3) (1 / 1000000) (replicate 14 0) 0 =
     Inr \<lparr>res_C = [0, 0, 0], res_Ct = [0, 0, 0], res_Cq = replicate 14 [0, 0, 0]\<rparr>"
  using default_residual_is_zero[of "1 / 1000000" 3 "replicate 14 0" 0]
  by (simp add: numeral_3_eq_3)




end
